theory Spec2Isabelle
  imports Main
begin

section \<open>The codepoint exclusion set\<close>

text \<open>
  Module constants of \<^verbatim>\<open>chws_subset/__init__.py\<close>. Codepoints are Python integers.
\<close>

type_synonym path = "string list"

datatype error =
    ValueError
  | KeyError string
  | IndexError
  | FileNotFoundError path
  | IsADirectoryError path
  | TTLibError path
  | PatchError
  | TransportError

definition EMOJI_IN_CJK :: "int set" where
  "EMOJI_IN_CJK =
     {0x26BD, 0x26BE, 0x1F18E, 0x1F191, 0x1F192, 0x1F193, 0x1F194, 0x1F195, 0x1F196,
      0x1F197, 0x1F198, 0x1F199, 0x1F19A, 0x1F201, 0x1F21A, 0x1F22F, 0x1F232, 0x1F233,
      0x1F234, 0x1F235, 0x1F236, 0x1F238, 0x1F239, 0x1F23A, 0x1F250, 0x1F251}"

definition ANDROID_EMOJI :: "int set" where
  "ANDROID_EMOJI =
     {0x2600, 0x2601, 0x260E, 0x261D, 0x263A, 0x2660, 0x2663, 0x2665, 0x2666, 0x270C,
      0x2744, 0x2764}"

text \<open>
  \<^verbatim>\<open>tool_utils.parse_int_ranges\<close> belongs to an external package. The program passes it
  one form only, two hexadecimal numbers joined by a hyphen, which it reads as the range
  with both ends included; that form is what is modelled, anything else is a ValueError.
\<close>

definition hex_digit :: "char \<Rightarrow> nat option" where
  "hex_digit c =
     (let n = (of_char c :: nat) in
      if 48 \<le> n \<and> n \<le> 57 then Some (n - 48)
      else if 65 \<le> n \<and> n \<le> 70 then Some (n - 55)
      else if 97 \<le> n \<and> n \<le> 102 then Some (n - 87)
      else None)"

fun hex_value_from :: "nat \<Rightarrow> string \<Rightarrow> nat option" where
  "hex_value_from acc [] = Some acc"
| "hex_value_from acc (c # cs) =
     (case hex_digit c of
        None \<Rightarrow> None
      | Some d \<Rightarrow> hex_value_from (16 * acc + d) cs)"

definition hex_value :: "string \<Rightarrow> nat option" where
  "hex_value s = (if s = [] then None else hex_value_from 0 s)"

definition parse_int_ranges :: "string \<Rightarrow> error + int list" where
  "parse_int_ranges s =
     (let lo = takeWhile (\<lambda>c. c \<noteq> CHR ''-'') s;
          hi = drop 1 (dropWhile (\<lambda>c. c \<noteq> CHR ''-'') s)
      in case (hex_value lo, hex_value hi) of
           (Some a, Some b) \<Rightarrow> Inr (map int [a..<Suc b])
         | _ \<Rightarrow> Inl ValueError)"

text \<open>
  \<^verbatim>\<open>CONTROL_CHARS = set(tool_utils.parse_int_ranges("0000-001F"))\<close>. A ValueError here
  would stop the import of the module; the empty set stands for that branch, which
  \<open>parse_control_chars\<close> below shows is not taken.
\<close>

definition CONTROL_CHARS :: "int set" where
  "CONTROL_CHARS =
     (case parse_int_ranges ''0000-001F'' of Inr xs \<Rightarrow> set xs | Inl e \<Rightarrow> {})"

text \<open>
  \<^verbatim>\<open>EXCLUDED_CODEPOINTS = frozenset(sorted(EMOJI_IN_CJK | ANDROID_EMOJI | CONTROL_CHARS))\<close>
\<close>

definition EXCLUDED_CODEPOINTS :: "int set" where
  "EXCLUDED_CODEPOINTS =
     set (sorted_list_of_set (EMOJI_IN_CJK \<union> ANDROID_EMOJI \<union> CONTROL_CHARS))"


section \<open>Fonts, files and the staging tree\<close>

text \<open>
  The font library's \<^verbatim>\<open>TTFont\<close> is a dictionary from table tags to tables. The record has
  one optional field for each table the program names (\<^verbatim>\<open>'fvar'\<close>, \<^verbatim>\<open>'VORG'\<close>,
  \<^verbatim>\<open>'VVAR'\<close>), the character map, and the name table; \<open>None\<close> is an absent table.
\<close>

record axis =
  axisTag :: string
  minValue :: int
  defaultValue :: int
  maxValue :: int

record vvar_table =
  AdvHeightMap :: "nat list option"
  VOrgMap :: "nat list option"

record font =
  cmap :: "(int \<times> string) list"
  fvar :: "axis list option"
  VORG :: "(string \<times> int) list option"
  VVAR :: "vvar_table option"
  name_table :: "string list"

text \<open>
  What a file holds: a single font, a collection (an ordered list of member fonts, whose
  first four bytes are the tag \<^verbatim>\<open>ttcf\<close>), or bytes that are neither.
\<close>

datatype content = Font font | Collection "font list" | Bytes string

text \<open>
  A URL in the parts \<^verbatim>\<open>urllib.parse.urlparse\<close> gives it, and the response the HTTP
  client ends with once redirects have been followed: its status and its body, the
  chunks of the stream put together.
\<close>

record url =
  scheme :: string
  netloc :: string
  url_path :: string

record response =
  status_code :: int
  body :: content

text \<open>
  The status lines the program prints, the error it logs, and a marker for each of the
  two closing calls of \<^verbatim>\<open>main\<close> that print nothing.
\<close>

datatype event =
    FETCH path
  | ADD_CHWS path
  | SUBSET path
  | VFINST path
  | TTF path
  | UNTTC path
  | UNTTC_TO path path
  | TTC path
  | LOG_ERROR url
  | SHUTDOWN
  | RMTREE path

text \<open>
  Paths are lists of components, relative to the working directory. The state the
  program acts on: the files, the directories made so far, and the lines printed.
  Creating a directory and writing a file succeed in the model; a read of a missing
  file, a load of the wrong kind of file, and the opening of a directory for the test
  for a collection raise.
\<close>

record world =
  files :: "path \<rightharpoonup> content"
  dirs :: "path set"
  trace :: "event list"

definition emit :: "event \<Rightarrow> world \<Rightarrow> world" where
  "emit e w = w\<lparr>trace := trace w @ [e]\<rparr>"

definition pjoin :: "path \<Rightarrow> string \<Rightarrow> path" where
  \<comment> \<open>\<^verbatim>\<open>Path(p) / s\<close>; an empty segment or a dot adds nothing\<close>
  "pjoin p s = (if s = [] \<or> s = ''.'' then p else p @ [s])"

definition path_name :: "path \<Rightarrow> string" where
  \<comment> \<open>\<^verbatim>\<open>Path(p).name\<close>\<close>
  "path_name p = (if p = [] then [] else last p)"

definition ancestors :: "path \<Rightarrow> path list" where
  "ancestors p = map (\<lambda>n. take n p) [1..<length p]"

definition ensure_parent_dir :: "path \<Rightarrow> world \<Rightarrow> world" where
  \<comment> \<open>\<^verbatim>\<open>Path(path).parent.mkdir(parents=True, exist_ok=True)\<close>\<close>
  "ensure_parent_dir p w = w\<lparr>dirs := dirs w \<union> set (ancestors p)\<rparr>"

definition write_file :: "path \<Rightarrow> content \<Rightarrow> world \<Rightarrow> world" where
  "write_file p c w = w\<lparr>files := (files w)(p \<mapsto> c)\<rparr>"

definition TTFont :: "world \<Rightarrow> path \<Rightarrow> error + font" where
  \<comment> \<open>\<^verbatim>\<open>ttLib.TTFont(path)\<close>\<close>
  "TTFont w p =
     (case files w p of
        None \<Rightarrow> Inl (FileNotFoundError p)
      | Some (Font f) \<Rightarrow> Inr f
      | Some _ \<Rightarrow> Inl (TTLibError p))"

definition TTCollection :: "world \<Rightarrow> path \<Rightarrow> error + font list" where
  \<comment> \<open>\<^verbatim>\<open>ttLib.TTCollection(path)\<close>\<close>
  "TTCollection w p =
     (case files w p of
        None \<Rightarrow> Inl (FileNotFoundError p)
      | Some (Collection fs) \<Rightarrow> Inr fs
      | Some _ \<Rightarrow> Inl (TTLibError p))"


section \<open>The font transform worker\<close>

text \<open>
  \<^verbatim>\<open>chws_tool.add_chws(in, out)\<close> is an external patch: it loads the input font, edits it
  and saves the result at the output path, or raises. The edit itself is the parameter
  \<open>patch\<close>.
\<close>

definition add_chws ::
  "(font \<Rightarrow> error + font) \<Rightarrow> path \<Rightarrow> path \<Rightarrow> world \<Rightarrow> (error + unit) \<times> world" where
  "add_chws patch inp out w =
     (case TTFont w inp of
        Inl e \<Rightarrow> (Inl e, w)
      | Inr f \<Rightarrow>
          (case patch f of
             Inl e \<Rightarrow> (Inl e, w)
           | Inr g \<Rightarrow> (Inr (), write_file out (Font g) w)))"

definition delete_from_cmap :: "font \<Rightarrow> int set \<Rightarrow> font" where
  \<comment> \<open>\<^verbatim>\<open>font_data.delete_from_cmap\<close>: a codepoint the map lacks is passed over\<close>
  "delete_from_cmap f chars = f\<lparr>cmap := filter (\<lambda>(c, g). c \<notin> chars) (cmap f)\<rparr>"

text \<open>
  \<^verbatim>\<open>instancer.instantiateVariableFont(font, limits, inplace=True, updateFontNames=False)\<close>
  is external too. Its contract for a limit given as a triple (minimum, default,
  maximum): the axis is cut down to that range, within the range the font declares; an
  axis is pinned, and leaves the font, only when the range left is a single value; the
  font loses its \<^verbatim>\<open>'fvar'\<close> table only when no axis is left. A limit for an axis the font
  does not have is an error. It adds no table, and with \<^verbatim>\<open>updateFontNames=False\<close> it
  leaves the name table alone.
\<close>

definition limit_axis :: "int \<times> int \<times> int \<Rightarrow> axis \<Rightarrow> axis" where
  "limit_axis t a =
     (case t of (lo, dflt, hi) \<Rightarrow>
        let mn = min (max lo (minValue a)) (maxValue a);
            mx = min (max hi (minValue a)) (maxValue a)
        in a\<lparr>minValue := mn, defaultValue := max mn (min mx dflt), maxValue := mx\<rparr>)"

definition limit_axes :: "(string \<times> int \<times> int \<times> int) list \<Rightarrow> axis list \<Rightarrow> axis list" where
  "limit_axes limits axes =
     map (\<lambda>a. case map_of limits (axisTag a) of None \<Rightarrow> a | Some t \<Rightarrow> limit_axis t a) axes"

definition pinned :: "(string \<times> int \<times> int \<times> int) list \<Rightarrow> axis \<Rightarrow> bool" where
  "pinned limits a = (axisTag a \<in> fst ` set limits \<and> minValue a = maxValue a)"

definition instantiateVariableFont ::
  "font \<Rightarrow> (string \<times> int \<times> int \<times> int) list \<Rightarrow> error + font" where
  "instantiateVariableFont f limits =
     (case fvar f of
        None \<Rightarrow> Inl ValueError
      | Some axes \<Rightarrow>
          if \<not> list_all (\<lambda>tag. tag \<in> axisTag ` set axes) (map fst limits) then Inl ValueError
          else
            let left = filter (\<lambda>a. \<not> pinned limits a) (limit_axes limits axes)
            in Inr (if left = [] then f\<lparr>fvar := None, VVAR := None\<rparr>
                    else f\<lparr>fvar := Some left\<rparr>))"

text \<open>
  The body of \<^verbatim>\<open>if 'fvar' in font:\<close>, after its status line:
  \<^verbatim>\<open>del font['VORG']\<close>, \<^verbatim>\<open>font['VVAR'].table.VOrgMap = None\<close>, and the call of the
  instancer with \<^verbatim>\<open>{'wght': (100, 400, 900)}\<close>. Deleting a table the font lacks and
  reading one it lacks are KeyErrors.
\<close>

definition wght_limits :: "(string \<times> int \<times> int \<times> int) list" where
  "wght_limits = [(''wght'', (100, 400, 900))]"

definition drop_vorg_and_instantiate :: "font \<Rightarrow> error + font" where
  "drop_vorg_and_instantiate f =
     (if VORG f = None then Inl (KeyError ''VORG'')
      else
        let f1 = f\<lparr>VORG := None\<rparr>
        in case VVAR f1 of
             None \<Rightarrow> Inl (KeyError ''VVAR'')
           | Some v \<Rightarrow>
               instantiateVariableFont (f1\<lparr>VVAR := Some (v\<lparr>VOrgMap := None\<rparr>)\<rparr>) wght_limits)"

definition save_ttf :: "font \<Rightarrow> path \<Rightarrow> world \<Rightarrow> (error + unit) \<times> world" where
  \<comment> \<open>the last three lines of the worker: status line, parent directory, save\<close>
  "save_ttf f out_ttf w =
     (Inr (), write_file out_ttf (Font f) (ensure_parent_dir out_ttf (emit (TTF out_ttf) w)))"

definition chws_path :: "path \<Rightarrow> path \<Rightarrow> path" where
  "chws_path temp_dir in_ttf = pjoin (pjoin temp_dir ''intermediate_chws'') (path_name in_ttf)"

definition process_ttf_worker ::
  "(font \<Rightarrow> error + font) \<Rightarrow> path \<Rightarrow> path \<Rightarrow> path \<Rightarrow> world \<Rightarrow> (error + unit) \<times> world" where
  "process_ttf_worker patch in_ttf out_ttf temp_dir w =
     (let chws_output = chws_path temp_dir in_ttf;
          w1 = emit (ADD_CHWS in_ttf) (ensure_parent_dir chws_output w)
      in case add_chws patch in_ttf chws_output w1 of
           (Inl e, w2) \<Rightarrow> (Inl e, w2)
         | (Inr _, w2) \<Rightarrow>
             let w3 = emit (SUBSET chws_output) w2
             in case TTFont w3 chws_output of
                  Inl e \<Rightarrow> (Inl e, w3)
                | Inr font0 \<Rightarrow>
                    let font1 = delete_from_cmap font0 EXCLUDED_CODEPOINTS
                    in if fvar font1 \<noteq> None then
                         let w4 = emit (VFINST chws_output) w3
                         in case drop_vorg_and_instantiate font1 of
                              Inl e \<Rightarrow> (Inl e, w4)
                            | Inr font2 \<Rightarrow> save_ttf font2 out_ttf w4
                       else save_ttf font1 out_ttf w3)"


section \<open>The collection codec\<close>

text \<open>Python's decimal rendering of a non-negative integer, as \<^verbatim>\<open>f"{i}"\<close> gives it.\<close>

definition digit_char :: "nat \<Rightarrow> char" where
  "digit_char d = ''0123456789'' ! d"

fun str_nat :: "nat \<Rightarrow> string" where
  "str_nat n = (if n < 10 then [digit_char n] else str_nat (n div 10) @ [digit_char (n mod 10)])"

declare str_nat.simps [simp del]

text \<open>Reading a decimal rendering back.\<close>

definition dec_value :: "string \<Rightarrow> nat" where
  "dec_value s = foldl (\<lambda>acc c. 10 * acc + (of_char c - 48)) 0 s"

definition member_name :: "path \<Rightarrow> nat \<Rightarrow> string" where
  \<comment> \<open>\<^verbatim>\<open>Path(in_ttc).name + f"#{i}.ttf"\<close>\<close>
  "member_name in_ttc i = path_name in_ttc @ ''#'' @ str_nat i @ ''.ttf''"

text \<open>
  \<^verbatim>\<open>asyncio.gather\<close> over tasks that each act on the staging tree. The model runs the
  tasks one after the other, in the order in which they were handed over, and stops at
  the first one that raises: that error is the one \<^verbatim>\<open>gather\<close> raises.
\<close>

fun gather :: "(world \<Rightarrow> (error + unit) \<times> world) list \<Rightarrow> world \<Rightarrow> (error + unit) \<times> world" where
  "gather [] w = (Inr (), w)"
| "gather (t # ts) w =
     (case t w of
        (Inl e, w') \<Rightarrow> (Inl e, w')
      | (Inr _, w') \<Rightarrow> gather ts w')"

definition unpack_ttc_worker :: "path \<Rightarrow> nat \<Rightarrow> path \<Rightarrow> world \<Rightarrow> (error + unit) \<times> world" where
  "unpack_ttc_worker in_ttc index out_file w =
     (let w1 = emit (UNTTC_TO in_ttc out_file) w
      in case TTCollection w1 in_ttc of
           Inl e \<Rightarrow> (Inl e, w1)
         | Inr ttc \<Rightarrow>
             if index < length ttc
             then (Inr (), write_file out_file (Font (ttc ! index)) (ensure_parent_dir out_file w1))
             else (Inl IndexError, w1))"

definition unpack_ttc :: "path \<Rightarrow> path \<Rightarrow> world \<Rightarrow> (error + path list) \<times> world" where
  "unpack_ttc in_ttc out_dir w =
     (let w1 = emit (UNTTC in_ttc) w
      in case TTCollection w1 in_ttc of
           Inl e \<Rightarrow> (Inl e, w1)
         | Inr ttc \<Rightarrow>
             let out_ttfs = map (\<lambda>i. pjoin out_dir (member_name in_ttc i)) [0..<length ttc];
                 futures = map (\<lambda>i. unpack_ttc_worker in_ttc i (pjoin out_dir (member_name in_ttc i)))
                             [0..<length ttc]
             in case gather futures w1 of
                  (Inl e, w2) \<Rightarrow> (Inl e, w2)
                | (Inr _, w2) \<Rightarrow> (Inr out_ttfs, w2))"

fun load_fonts :: "world \<Rightarrow> path list \<Rightarrow> error + font list" where
  \<comment> \<open>the loop \<^verbatim>\<open>for ttf in ttfs: ttc.fonts.append(ttLib.TTFont(ttf))\<close>\<close>
  "load_fonts w [] = Inr []"
| "load_fonts w (p # ps) =
     (case TTFont w p of
        Inl e \<Rightarrow> Inl e
      | Inr f \<Rightarrow>
          (case load_fonts w ps of
             Inl e \<Rightarrow> Inl e
           | Inr fs \<Rightarrow> Inr (f # fs)))"

definition pack_ttc :: "path list \<Rightarrow> path \<Rightarrow> world \<Rightarrow> (error + unit) \<times> world" where
  "pack_ttc ttfs out_ttc w =
     (let w1 = emit (TTC out_ttc) w
      in case load_fonts w1 ttfs of
           Inl e \<Rightarrow> (Inl e, w1)
         | Inr fonts \<Rightarrow> (Inr (), write_file out_ttc (Collection fonts) (ensure_parent_dir out_ttc w1)))"

definition is_ttc :: "world \<Rightarrow> path \<Rightarrow> error + bool" where
  \<comment> \<open>\<^verbatim>\<open>open(file_path, "rb")\<close>, then: the first four bytes of the file are \<^verbatim>\<open>ttcf\<close>\<close>
  "is_ttc w p =
     (if p \<in> dirs w then Inl (IsADirectoryError p)
      else
        case files w p of
          None \<Rightarrow> Inl (FileNotFoundError p)
        | Some (Collection fs) \<Rightarrow> Inr True
        | Some (Font f) \<Rightarrow> Inr False
        | Some (Bytes bs) \<Rightarrow> Inr (take 4 bs = ''ttcf''))"


section \<open>The fetcher\<close>

text \<open>
  \<^verbatim>\<open>download_file(url, save_path_file_name, actx)\<close>. The HTTP client is the parameter
  \<open>http\<close>: it answers a URL with a response, or raises. The gate \<open>actx\<close> decides when
  a download may start, not what it does; it is modelled on its own below.
\<close>

definition download_file ::
  "(url \<Rightarrow> error + response) \<Rightarrow> url \<Rightarrow> path \<Rightarrow> world \<Rightarrow> (error + bool) \<times> world" where
  "download_file http u save_path_file_name w =
     (let w1 = emit (FETCH save_path_file_name) w
      in case http u of
           Inl e \<Rightarrow> (Inl e, w1)
         | Inr r \<Rightarrow>
             if status_code r \<noteq> 200 then (Inr False, emit (LOG_ERROR u) w1)
             else (Inr True,
                   write_file save_path_file_name (body r)
                     (ensure_parent_dir save_path_file_name w1)))"


section \<open>The orchestrator\<close>

text \<open>
  One member of a collection goes through two awaited steps in
  \<^verbatim>\<open>unpack_and_process_ttf\<close>: the unpack worker, then the transform worker.
\<close>

datatype stage = TO_UNPACK | TO_TRANSFORM | FINISHED

definition input_ttf_path :: "path \<Rightarrow> path \<Rightarrow> nat \<Rightarrow> path" where
  "input_ttf_path temp_dir in_ttc i = pjoin (pjoin temp_dir ''input_ttf'') (member_name in_ttc i)"

definition processed_ttf_path :: "path \<Rightarrow> path \<Rightarrow> nat \<Rightarrow> path" where
  "processed_ttf_path temp_dir in_ttc i =
     pjoin (pjoin temp_dir ''processed_ttf'') (member_name in_ttc i)"

fun member_step ::
  "(font \<Rightarrow> error + font) \<Rightarrow> path \<Rightarrow> path \<Rightarrow> nat \<Rightarrow> stage \<Rightarrow> world \<Rightarrow> (error + stage) \<times> world" where
  "member_step patch in_ttc temp_dir i TO_UNPACK w =
     (case unpack_ttc_worker in_ttc i (input_ttf_path temp_dir in_ttc i) w of
        (Inl e, w') \<Rightarrow> (Inl e, w')
      | (Inr _, w') \<Rightarrow> (Inr TO_TRANSFORM, w'))"
| "member_step patch in_ttc temp_dir i TO_TRANSFORM w =
     (case process_ttf_worker patch (input_ttf_path temp_dir in_ttc i)
             (processed_ttf_path temp_dir in_ttc i) temp_dir w of
        (Inl e, w') \<Rightarrow> (Inl e, w')
      | (Inr _, w') \<Rightarrow> (Inr FINISHED, w'))"
| "member_step patch in_ttc temp_dir i FINISHED w = (Inr FINISHED, w)"

text \<open>
  \<^verbatim>\<open>asyncio.gather(*coros)\<close> over the members of one collection. Which member takes its
  next step is the event loop's choice: the schedule, a list of member indices, is that
  choice. An entry for a member that has finished, or for no member, does nothing. The
  first step that raises ends the wait with its error.
\<close>

fun run_schedule ::
  "(nat \<Rightarrow> stage \<Rightarrow> world \<Rightarrow> (error + stage) \<times> world) \<Rightarrow> nat list \<Rightarrow> stage list \<Rightarrow> world
     \<Rightarrow> (error + stage list) \<times> world" where
  "run_schedule step [] st w = (Inr st, w)"
| "run_schedule step (k # ks) st w =
     (if k < length st \<and> st ! k \<noteq> FINISHED then
        (case step k (st ! k) w of
           (Inl e, w') \<Rightarrow> (Inl e, w')
         | (Inr s, w') \<Rightarrow> run_schedule step ks (st[k := s]) w')
      else run_schedule step ks st w)"

text \<open>
  Whatever the schedule, \<^verbatim>\<open>gather\<close> returns only when every member has finished: the
  steps the schedule left out are taken at its end, member by member.
\<close>

definition completion :: "nat \<Rightarrow> nat list" where
  "completion n = concat (map (\<lambda>i. [i, i]) [0..<n])"

definition process_ttc ::
  "nat list \<Rightarrow> (font \<Rightarrow> error + font) \<Rightarrow> path \<Rightarrow> path \<Rightarrow> path \<Rightarrow> world \<Rightarrow> (error + unit) \<times> world" where
  "process_ttc sched patch in_ttc out_ttc temp_dir w =
     (case TTCollection w in_ttc of
        Inl e \<Rightarrow> (Inl e, w)
      | Inr ttc \<Rightarrow>
          let n = length ttc;
              out_ttfs = map (processed_ttf_path temp_dir in_ttc) [0..<n]
          in case run_schedule (member_step patch in_ttc temp_dir) (sched @ completion n)
                    (replicate n TO_UNPACK) w of
               (Inl e, w1) \<Rightarrow> (Inl e, w1)
             | (Inr _, w1) \<Rightarrow> pack_ttc out_ttfs out_ttc w1)"

definition process_font ::
  "nat list \<Rightarrow> (font \<Rightarrow> error + font) \<Rightarrow> path \<Rightarrow> path \<Rightarrow> path \<Rightarrow> world \<Rightarrow> (error + unit) \<times> world" where
  "process_font sched patch in_font out_font temp_dir w =
     (case is_ttc w in_font of
        Inl e \<Rightarrow> (Inl e, w)
      | Inr True \<Rightarrow> process_ttc sched patch in_font out_font temp_dir w
      | Inr False \<Rightarrow> process_ttf_worker patch in_font out_font temp_dir w)"

text \<open>
  The run driver, \<^verbatim>\<open>main\<close> of \<^verbatim>\<open>__main__.py\<close>. The collaborators are collected in one
  record: the HTTP client, the patch, and the event loop's schedule for the members of
  the collection fetched from a URL.
\<close>

record env =
  http_get :: "url \<Rightarrow> error + response"
  patch_font :: "font \<Rightarrow> error + font"
  member_schedule :: "url \<Rightarrow> nat list"

definition last_segment :: "string \<Rightarrow> string" where
  \<comment> \<open>\<^verbatim>\<open>s.split("/")[-1]\<close>\<close>
  "last_segment s = rev (takeWhile (\<lambda>c. c \<noteq> CHR ''/'') (rev s))"

definition main_temp_dir :: path where
  "main_temp_dir = [''temp'']"

definition input_file_of :: "url \<Rightarrow> path" where
  "input_file_of u = pjoin (pjoin main_temp_dir ''input'') (last_segment (url_path u))"

definition output_file_of :: "url \<Rightarrow> path" where
  "output_file_of u = pjoin [''system'', ''fonts''] (last_segment (url_path u))"

definition download_and_process_file :: "env \<Rightarrow> url \<Rightarrow> world \<Rightarrow> (error + unit) \<times> world" where
  "download_and_process_file env u w =
     (case download_file (http_get env) u (input_file_of u) w of
        (Inl e, w1) \<Rightarrow> (Inl e, w1)
      | (Inr _, w1) \<Rightarrow>
          process_font (member_schedule env u) (patch_font env) (input_file_of u)
            (output_file_of u) main_temp_dir w1)"

definition DEFAULT_DOWNLOADING_FONTS :: "(string \<times> url) list" where
  "DEFAULT_DOWNLOADING_FONTS =
     [(''NotoSerifCJK-VF.otf.ttc'',
       \<lparr>scheme = ''https'', netloc = ''github.com'',
        url_path = ''/notofonts/noto-cjk/raw/refs/heads/main/Serif/Variable/OTC/NotoSerifCJK-VF.otf.ttc''\<rparr>),
      (''NotoSansCJK-VF.otf.ttc'',
       \<lparr>scheme = ''https'', netloc = ''github.com'',
        url_path = ''/notofonts/noto-cjk/raw/refs/heads/main/Sans/Variable/OTC/NotoSansCJK-VF.otf.ttc''\<rparr>)]"

definition installer_url :: url where
  "installer_url =
     \<lparr>scheme = ''https'', netloc = ''github.com'',
      url_path = ''/topjohnwu/Magisk/raw/master/scripts/module_installer.sh''\<rparr>"

definition installer_path :: path where
  "installer_path = [''META-INF'', ''com'', ''google'', ''android'', ''update-binary'']"

text \<open>
  The command line: \<open>Some u\<close> when \<^verbatim>\<open>--url\<close> is given a non-empty value, else \<open>None\<close>.
\<close>

definition urls_of :: "url option \<Rightarrow> url list" where
  "urls_of arg = (case arg of Some u \<Rightarrow> [u] | None \<Rightarrow> map snd DEFAULT_DOWNLOADING_FONTS)"

definition build_module :: "url option \<Rightarrow> bool" where
  "build_module arg = (arg = None)"

definition drop_result :: "(world \<Rightarrow> (error + 'a) \<times> world) \<Rightarrow> world \<Rightarrow> (error + unit) \<times> world" where
  "drop_result t w = (case t w of (Inl e, w') \<Rightarrow> (Inl e, w') | (Inr _, w') \<Rightarrow> (Inr (), w'))"

definition rmtree :: "path \<Rightarrow> world \<Rightarrow> (error + unit) \<times> world" where
  \<comment> \<open>\<^verbatim>\<open>shutil.rmtree(root)\<close>: everything at and under the root goes; a missing root raises\<close>
  "rmtree root w =
     (let w1 = emit (RMTREE root) w
      in if root \<in> dirs w1
         then (Inr (),
               w1\<lparr>files := (\<lambda>p. if take (length root) p = root then None else files w1 p),
                  dirs := dirs w1 - {d. take (length root) d = root}\<rparr>)
         else (Inl (FileNotFoundError root), w1))"

definition main_futures :: "url option \<Rightarrow> env \<Rightarrow> (world \<Rightarrow> (error + unit) \<times> world) list" where
  \<comment> \<open>the list \<^verbatim>\<open>futures\<close> of \<^verbatim>\<open>main\<close>: a chain for each URL, and the installer's download\<close>
  "main_futures arg env =
     map (download_and_process_file env) (urls_of arg)
     @ (if build_module arg
        then [drop_result (download_file (http_get env) installer_url installer_path)]
        else [])"

definition main :: "url option \<Rightarrow> env \<Rightarrow> world \<Rightarrow> (error + unit) \<times> world" where
  "main arg env w =
     (case gather (main_futures arg env) w of
        (Inl e, w1) \<Rightarrow> (Inl e, w1)
      | (Inr _, w1) \<Rightarrow> rmtree main_temp_dir (emit SHUTDOWN w1))"


section \<open>The download gate\<close>

text \<open>
  \<^verbatim>\<open>download_sem = asyncio.Semaphore(2)\<close> is handed to the download of each font and not to
  the download of the installer script, whose \<^verbatim>\<open>actx\<close> is \<^verbatim>\<open>None\<close>. A download enters
  \<^verbatim>\<open>async with actx\<close> (taking a permit, or waiting while there is none), transfers, and
  leaves it (giving the permit back) however the transfer ended; without a gate it
  enters at once. The schedule lists which download the event loop resumes next.
\<close>

datatype dl_state = WAITING | ACTIVE | DONE

record dl_task =
  gated :: bool
  dl :: dl_state

record gate_state =
  permits :: nat
  tasks :: "dl_task list"

definition dl_step :: "nat \<Rightarrow> gate_state \<Rightarrow> gate_state" where
  "dl_step k s =
     (if k < length (tasks s) then
        (let t = tasks s ! k
         in case dl t of
              WAITING \<Rightarrow>
                if gated t then
                  (if permits s > 0
                   then s\<lparr>permits := permits s - 1, tasks := (tasks s)[k := t\<lparr>dl := ACTIVE\<rparr>]\<rparr>
                   else s)
                else s\<lparr>tasks := (tasks s)[k := t\<lparr>dl := ACTIVE\<rparr>]\<rparr>
            | ACTIVE \<Rightarrow>
                s\<lparr>permits := (if gated t then permits s + 1 else permits s),
                  tasks := (tasks s)[k := t\<lparr>dl := DONE\<rparr>]\<rparr>
            | DONE \<Rightarrow> s)
      else s)"

fun dl_run :: "nat list \<Rightarrow> gate_state \<Rightarrow> gate_state" where
  "dl_run [] s = s"
| "dl_run (k # ks) s = dl_run ks (dl_step k s)"

definition download_tasks :: "url option \<Rightarrow> dl_task list" where
  \<comment> \<open>the downloads \<^verbatim>\<open>main\<close> starts: one per URL, with the gate, and the installer's, without\<close>
  "download_tasks arg =
     map (\<lambda>u. \<lparr>gated = True, dl = WAITING\<rparr>) (urls_of arg)
     @ (if build_module arg then [\<lparr>gated = False, dl = WAITING\<rparr>] else [])"

definition gate_init :: "nat \<Rightarrow> dl_task list \<Rightarrow> gate_state" where
  "gate_init n ts = \<lparr>permits = n, tasks = ts\<rparr>"

definition active :: "gate_state \<Rightarrow> nat" where
  "active s = length (filter (\<lambda>t. dl t = ACTIVE) (tasks s))"

definition active_gated :: "gate_state \<Rightarrow> nat" where
  "active_gated s = length (filter (\<lambda>t. dl t = ACTIVE \<and> gated t) (tasks s))"


section \<open>Invariants and example inputs\<close>

text \<open>The gate's invariant: a permit is out for each gated download in transfer.\<close>

definition gate_inv :: "nat \<Rightarrow> dl_task list \<Rightarrow> gate_state \<Rightarrow> bool" where
  "gate_inv n ts s =
     (permits s + active_gated s = n \<and> map gated (tasks s) = map gated ts)"

text \<open>Two HTTP clients for the examples: each answers every URL with one fixed response.\<close>

definition answer :: "int \<Rightarrow> content \<Rightarrow> url \<Rightarrow> error + response" where
  "answer st c u = Inr \<lparr>status_code = st, body = c\<rparr>"

definition empty_world :: world where
  "empty_world = \<lparr>files = Map.empty, dirs = {}, trace = []\<rparr>"

definition font_url :: url where
  "font_url = \<lparr>scheme = ''https'', netloc = ''h'', url_path = ''/d/f''\<rparr>"




text \<open>The two closing events of \<^verbatim>\<open>main\<close>, and a step of the run that adds none of them.\<close>

fun closing :: "event \<Rightarrow> bool" where
  "closing SHUTDOWN = True"
| "closing (RMTREE r) = True"
| "closing e = False"

definition quiet :: "world \<Rightarrow> world \<Rightarrow> bool" where
  "quiet w w' = (\<exists>evs. trace w' = trace w @ evs \<and> list_all (\<lambda>e. \<not> closing e) evs)"

text \<open>An environment for the examples: a fixed answer, a patch that changes nothing.\<close>

definition test_env :: "int \<Rightarrow> content \<Rightarrow> env" where
  "test_env st c = \<lparr>http_get = answer st c, patch_font = Inr, member_schedule = (\<lambda>u. [])\<rparr>"


text \<open>
  What the transform worker does to a font, apart from the files: the patch, the
  removal of the excluded codepoints, and the variable-font branch.
\<close>

definition transform_font :: "(font \<Rightarrow> error + font) \<Rightarrow> font \<Rightarrow> error + font" where
  "transform_font patch f =
     (case patch f of
        Inl e \<Rightarrow> Inl e
      | Inr g \<Rightarrow>
          let font1 = delete_from_cmap g EXCLUDED_CODEPOINTS
          in if fvar font1 \<noteq> None then drop_vorg_and_instantiate font1 else Inr font1)"

text \<open>
  How far a member is, the events the steps of a member print, and a stretch of the run
  that adds events of one kind only.
\<close>

fun rank :: "stage \<Rightarrow> nat" where
  "rank TO_UNPACK = 0"
| "rank TO_TRANSFORM = 1"
| "rank FINISHED = 2"

fun member_event :: "event \<Rightarrow> bool" where
  "member_event (UNTTC_TO c p) = True"
| "member_event (ADD_CHWS p) = True"
| "member_event (SUBSET p) = True"
| "member_event (VFINST p) = True"
| "member_event (TTF p) = True"
| "member_event e = False"

definition adds :: "(event \<Rightarrow> bool) \<Rightarrow> world \<Rightarrow> world \<Rightarrow> bool" where
  "adds P w w' = (\<exists>evs. trace w' = trace w @ evs \<and> list_all P evs)"

text \<open>
  The invariant of the wait for the members of a collection \<open>ms\<close>, started in \<open>w0\<close>:
  the collection file is untouched, a member that was unpacked has its font at its
  input path, and a member that finished has its transformed font at its output path
  and has printed the status line of the save.
\<close>

definition members_inv ::
  "(font \<Rightarrow> error + font) \<Rightarrow> path \<Rightarrow> path \<Rightarrow> font list \<Rightarrow> world \<Rightarrow> stage list \<Rightarrow> world \<Rightarrow> bool" where
  "members_inv patch in_ttc temp_dir ms w0 st w =
     (length st = length ms
      \<and> files w in_ttc = Some (Collection ms)
      \<and> adds member_event w0 w
      \<and> (\<forall>i<length ms.
            (st ! i = TO_TRANSFORM \<longrightarrow>
               files w (input_ttf_path temp_dir in_ttc i) = Some (Font (ms ! i)))
          \<and> (st ! i = FINISHED \<longrightarrow>
               (\<exists>f. transform_font patch (ms ! i) = Inr f
                   \<and> files w (processed_ttf_path temp_dir in_ttc i) = Some (Font f))
               \<and> TTF (processed_ttf_path temp_dir in_ttc i)
                    \<in> set (drop (length (trace w0)) (trace w)))))"


text \<open>
  The axes a font keeps after the instancer has applied the weight limits: the ones
  that are not pinned.
\<close>

definition wght_left :: "axis list \<Rightarrow> axis list" where
  "wght_left axes = filter (\<lambda>a. \<not> pinned wght_limits a) (limit_axes wght_limits axes)"

text \<open>
  A variable font in the shape of the Noto CJK ones (a weight axis from 100 to 900, with
  vertical-origin and vertical-metrics-variation tables), and a staging tree that holds
  one file.
\<close>

definition noto_vf :: font where
  "noto_vf =
     \<lparr>cmap = [(0x0041, ''A''), (0x26BD, ''soccer''), (0x0009, ''tab'')],
      fvar = Some [\<lparr>axisTag = ''wght'', minValue = 100, defaultValue = 100, maxValue = 900\<rparr>],
      VORG = Some [(''A'', 880)],
      VVAR = Some \<lparr>AdvHeightMap = Some [0], VOrgMap = Some [0]\<rparr>,
      name_table = [''Noto'']\<rparr>"

text \<open>What the worker makes of \<open>noto_vf\<close>.\<close>

definition noto_vf_out :: font where
  "noto_vf_out =
     \<lparr>cmap = [(0x0041, ''A'')],
      fvar = Some [\<lparr>axisTag = ''wght'', minValue = 100, defaultValue = 400, maxValue = 900\<rparr>],
      VORG = None,
      VVAR = Some \<lparr>AdvHeightMap = Some [0], VOrgMap = None\<rparr>,
      name_table = [''Noto'']\<rparr>"

definition one_file :: "path \<Rightarrow> content \<Rightarrow> world" where
  "one_file p c = \<lparr>files = [p \<mapsto> c], dirs = {}, trace = []\<rparr>"


text \<open>A staging tree that holds one collection of two members.\<close>

definition two_fonts :: world where
  "two_fonts = one_file [''c''] (Collection [noto_vf, noto_vf])"


section \<open>Properties\<close>

subsection \<open>The exclusion set\<close>

lemma parse_control_chars: "parse_int_ranges ''0000-001F'' = Inr (map int [0..<32])"
  by (simp add: parse_int_ranges_def hex_value_def hex_digit_def)

lemma CONTROL_CHARS_range: "CONTROL_CHARS = {0..31}"
proof -
  have "CONTROL_CHARS = int ` {0..<32}"
    by (simp add: CONTROL_CHARS_def parse_control_chars)
  also have "\<dots> = {0..31}"
  proof (rule set_eqI)
    fix x :: int
    show "x \<in> int ` {0..<32} \<longleftrightarrow> x \<in> {0..31}"
    proof
      assume "x \<in> int ` {0..<32}"
      then show "x \<in> {0..31}" by auto
    next
      assume "x \<in> {0..31}"
      then have "x = int (nat x)" and "nat x \<in> {0..<32}" by auto
      then show "x \<in> int ` {0..<32}" by (rule image_eqI)
    qed
  qed
  finally show ?thesis .
qed

lemma finite_EMOJI_IN_CJK: "finite EMOJI_IN_CJK"
  by (simp add: EMOJI_IN_CJK_def)

lemma finite_ANDROID_EMOJI: "finite ANDROID_EMOJI"
  by (simp add: ANDROID_EMOJI_def)

lemma EXCLUDED_CODEPOINTS_union:
  "EXCLUDED_CODEPOINTS = EMOJI_IN_CJK \<union> ANDROID_EMOJI \<union> CONTROL_CHARS"
  by (simp add: EXCLUDED_CODEPOINTS_def finite_EMOJI_IN_CJK finite_ANDROID_EMOJI
      CONTROL_CHARS_range)


subsection \<open>The state after each primitive\<close>

lemma files_emit [simp]: "files (emit e w) = files w"
  and dirs_emit [simp]: "dirs (emit e w) = dirs w"
  and trace_emit [simp]: "trace (emit e w) = trace w @ [e]"
  by (simp_all add: emit_def)

lemma files_ensure_parent_dir [simp]: "files (ensure_parent_dir p w) = files w"
  and dirs_ensure_parent_dir [simp]: "dirs (ensure_parent_dir p w) = dirs w \<union> set (ancestors p)"
  and trace_ensure_parent_dir [simp]: "trace (ensure_parent_dir p w) = trace w"
  by (simp_all add: ensure_parent_dir_def)

lemma files_write_file [simp]: "files (write_file p c w) = (files w)(p \<mapsto> c)"
  and dirs_write_file [simp]: "dirs (write_file p c w) = dirs w"
  and trace_write_file [simp]: "trace (write_file p c w) = trace w"
  by (simp_all add: write_file_def)

lemma files_one_file: "files (one_file p c) p = Some c"
  by (simp add: one_file_def)

subsection \<open>The transform of a variable font\<close>

lemma tables_delete_from_cmap [simp]:
  "fvar (delete_from_cmap g X) = fvar g"
  "VORG (delete_from_cmap g X) = VORG g"
  "VVAR (delete_from_cmap g X) = VVAR g"
  "name_table (delete_from_cmap g X) = name_table g"
  by (simp_all add: delete_from_cmap_def)

lemma excluded_simps:
  "(0x0041::int) \<notin> EXCLUDED_CODEPOINTS"
  "(0x26BD::int) \<in> EXCLUDED_CODEPOINTS"
  "(0x0009::int) \<in> EXCLUDED_CODEPOINTS"
  by (simp_all add: EXCLUDED_CODEPOINTS_union CONTROL_CHARS_range EMOJI_IN_CJK_def
      ANDROID_EMOJI_def)

text \<open>The worker up to the test for \<^verbatim>\<open>'fvar'\<close>, when the input loads and the patch succeeds.\<close>

lemma worker_loaded:
  assumes "files w in_ttf = Some (Font f)" and "patch f = Inr g"
  shows "process_ttf_worker patch in_ttf out_ttf temp_dir w =
    (let c = chws_path temp_dir in_ttf;
         w3 = emit (SUBSET c) (write_file c (Font g)
                (emit (ADD_CHWS in_ttf) (ensure_parent_dir c w)));
         font1 = delete_from_cmap g EXCLUDED_CODEPOINTS
     in if fvar g \<noteq> None then
          (case drop_vorg_and_instantiate font1 of
             Inl e \<Rightarrow> (Inl e, emit (VFINST c) w3)
           | Inr font2 \<Rightarrow> save_ttf font2 out_ttf (emit (VFINST c) w3))
        else save_ttf font1 out_ttf w3)"
  using assms
  by (simp add: process_ttf_worker_def add_chws_def TTFont_def Let_def)

lemma axisTag_limit_axis [simp]: "axisTag (limit_axis t a) = axisTag a"
  by (cases t) (simp add: limit_axis_def Let_def)

lemma wght_left_empty:
  "(wght_left axes = []) =
   (\<forall>a\<in>set axes. axisTag a = ''wght'' \<and>
      min (max 100 (minValue a)) (maxValue a) = min (max 900 (minValue a)) (maxValue a))"
  by (auto simp add: wght_left_def wght_limits_def limit_axes_def pinned_def filter_empty_conv
      limit_axis_def Let_def)

lemma wght_left_noto:
  "wght_left [\<lparr>axisTag = ''wght'', minValue = 100, defaultValue = 100, maxValue = 900\<rparr>] =
     [\<lparr>axisTag = ''wght'', minValue = 100, defaultValue = 400, maxValue = 900\<rparr>]"
  by (simp add: wght_left_def wght_limits_def limit_axes_def limit_axis_def pinned_def)

lemma drop_vorg_and_instantiate_ok:
  assumes "fvar g = Some axes" and "''wght'' \<in> axisTag ` set axes"
    and "VORG g = Some vo" and "VVAR g = Some v"
  shows "drop_vorg_and_instantiate g =
     Inr (if wght_left axes = []
          then g\<lparr>VORG := None, VVAR := None, fvar := None\<rparr>
          else g\<lparr>VORG := None, VVAR := Some (v\<lparr>VOrgMap := None\<rparr>),
                 fvar := Some (wght_left axes)\<rparr>)"
  using assms
  by (simp add: drop_vorg_and_instantiate_def instantiateVariableFont_def Let_def
      wght_left_def wght_limits_def)

lemma drop_vorg_noto:
  "drop_vorg_and_instantiate (delete_from_cmap noto_vf EXCLUDED_CODEPOINTS) = Inr noto_vf_out"
  by (simp add: drop_vorg_and_instantiate_def instantiateVariableFont_def Let_def
        delete_from_cmap_def noto_vf_def noto_vf_out_def excluded_simps wght_limits_def
        wght_left_noto [unfolded wght_left_def wght_limits_def])

lemma worker_on_noto_vf:
  assumes "files w i = Some (Font noto_vf)"
  shows "process_ttf_worker Inr i out t w =
     save_ttf noto_vf_out out
       (emit (VFINST (chws_path t i)) (emit (SUBSET (chws_path t i))
          (write_file (chws_path t i) (Font noto_vf)
             (emit (ADD_CHWS i) (ensure_parent_dir (chws_path t i) w)))))"
proof -
  have f: "fvar noto_vf \<noteq> None"
    by (simp add: noto_vf_def)
  show ?thesis
    using f
    by (subst worker_loaded [OF assms, where patch = Inr and g = noto_vf])
       (simp_all add: Let_def drop_vorg_noto)
qed

lemma worker_on_noto_without_VORG:
  assumes "files w i = Some (Font (noto_vf\<lparr>VORG := None\<rparr>))"
  shows "process_ttf_worker Inr i out t w =
     (Inl (KeyError ''VORG''),
       emit (VFINST (chws_path t i)) (emit (SUBSET (chws_path t i))
          (write_file (chws_path t i) (Font (noto_vf\<lparr>VORG := None\<rparr>))
             (emit (ADD_CHWS i) (ensure_parent_dir (chws_path t i) w)))))"
proof -
  have f: "fvar (noto_vf\<lparr>VORG := None\<rparr>) \<noteq> None"
    by (simp add: noto_vf_def)
  show ?thesis
    using f
    by (subst worker_loaded [OF assms, where patch = Inr and g = "noto_vf\<lparr>VORG := None\<rparr>"])
       (simp_all add: Let_def drop_vorg_and_instantiate_def)
qed

text \<open>
  C10. When the font the worker loads has an \<^verbatim>\<open>'fvar'\<close> table, whatever its axes, the
  variable-font branch is taken. If the font lacks \<^verbatim>\<open>'VORG'\<close> or \<^verbatim>\<open>'VVAR'\<close> the worker
  raises a KeyError there: the state it leaves holds the intermediate file and the three
  status lines printed so far, and nothing was saved at the output path. So the worker
  returns normally on such a font only if both tables are present.
\<close>

theorem fvar_branch_requires_VORG_and_VVAR:
  assumes "files w in_ttf = Some (Font f)" and "patch f = Inr g" and "fvar g \<noteq> None"
  shows "(VORG g = None \<or> VVAR g = None \<longrightarrow>
            process_ttf_worker patch in_ttf out_ttf temp_dir w =
              (Inl (KeyError (if VORG g = None then ''VORG'' else ''VVAR'')),
               w\<lparr>files := (files w)(chws_path temp_dir in_ttf \<mapsto> Font g),
                 dirs := dirs w \<union> set (ancestors (chws_path temp_dir in_ttf)),
                 trace := trace w @ [ADD_CHWS in_ttf, SUBSET (chws_path temp_dir in_ttf),
                                     VFINST (chws_path temp_dir in_ttf)]\<rparr>))
       \<and> (fst (process_ttf_worker patch in_ttf out_ttf temp_dir w) = Inr () \<longrightarrow>
            VORG g \<noteq> None \<and> VVAR g \<noteq> None)
       \<and> VFINST (chws_path temp_dir in_ttf)
            \<in> set (drop (length (trace w))
                      (trace (snd (process_ttf_worker patch in_ttf out_ttf temp_dir w))))"
  using assms
  by (auto simp add: worker_loaded Let_def drop_vorg_and_instantiate_def emit_def
      ensure_parent_dir_def write_file_def save_ttf_def split: option.splits sum.splits)

theorem fvar_branch_requires_VORG_and_VVAR_witness:
  "fvar (noto_vf\<lparr>VORG := None\<rparr>) \<noteq> None
   \<and> VORG (noto_vf\<lparr>VORG := None\<rparr>) = None
   \<and> fst (process_ttf_worker Inr [''i''] [''o''] [''t'']
             (one_file [''i''] (Font (noto_vf\<lparr>VORG := None\<rparr>)))) = Inl (KeyError ''VORG'')
   \<and> files (snd (process_ttf_worker Inr [''i''] [''o''] [''t'']
             (one_file [''i''] (Font (noto_vf\<lparr>VORG := None\<rparr>))))) [''o''] = None"
proof -
  have h: "fvar (noto_vf\<lparr>VORG := None\<rparr>) \<noteq> None"
    by (simp add: noto_vf_def)
  have c: "chws_path [''t''] [''i''] = [''t'', ''intermediate_chws'', ''i'']"
    by (simp add: chws_path_def pjoin_def path_name_def)
  from fvar_branch_requires_VORG_and_VVAR
         [OF files_one_file, where patch = Inr and g = "noto_vf\<lparr>VORG := None\<rparr>"
          and out_ttf = "[''o'']" and temp_dir = "[''t'']", OF refl h]
  show ?thesis
    using h by (simp add: c one_file_def)
qed

text \<open>
  C5, as amended. When the font the worker loads has an \<^verbatim>\<open>'fvar'\<close> table with a weight
  axis and has both \<^verbatim>\<open>'VORG'\<close> and \<^verbatim>\<open>'VVAR'\<close>, the worker returns normally and the font it
  saves has no \<^verbatim>\<open>'VORG'\<close> table, the name table of the loaded font, the character map
  without the excluded codepoints, and the axes the instancer leaves for the limits
  (100, 400, 900), with the vertical-origin map of \<^verbatim>\<open>'VVAR'\<close> cleared. The saved font is
  static exactly when every axis is a weight axis on which the limits 100 and 900, each
  clamped into the range the axis declares, give the same value; when every axis
  declares a minimum that is at most its maximum, that is when every axis is a weight
  axis whose declared range is a single value, or lies wholly at or below 100, or lies
  wholly at or above 900. Such a font whose weight range meets the range from 100 to 900
  in more than one value keeps an \<^verbatim>\<open>'fvar'\<close> table.
\<close>

theorem transform_variable_font:
  assumes "files w in_ttf = Some (Font f)" and "patch f = Inr g"
    and "fvar g = Some axes" and "''wght'' \<in> axisTag ` set axes"
    and "VORG g = Some vo" and "VVAR g = Some v"
  shows "\<exists>out. fst (process_ttf_worker patch in_ttf out_ttf temp_dir w) = Inr ()
     \<and> files (snd (process_ttf_worker patch in_ttf out_ttf temp_dir w)) out_ttf = Some (Font out)
     \<and> VORG out = None
     \<and> name_table out = name_table g
     \<and> cmap out = filter (\<lambda>(c, n). c \<notin> EXCLUDED_CODEPOINTS) (cmap g)
     \<and> fvar out = (if wght_left axes = [] then None else Some (wght_left axes))
     \<and> VVAR out = (if wght_left axes = [] then None else Some (v\<lparr>VOrgMap := None\<rparr>))
     \<and> ((fvar out = None) =
          (\<forall>a\<in>set axes. axisTag a = ''wght'' \<and>
             min (max 100 (minValue a)) (maxValue a) = min (max 900 (minValue a)) (maxValue a)))
     \<and> ((\<forall>a\<in>set axes. minValue a \<le> maxValue a) \<longrightarrow>
          (fvar out = None) =
          (\<forall>a\<in>set axes. axisTag a = ''wght'' \<and>
             (minValue a = maxValue a \<or> maxValue a \<le> 100 \<or> 900 \<le> minValue a)))"
proof -
  let ?h = "delete_from_cmap g EXCLUDED_CODEPOINTS"
  let ?c = "chws_path temp_dir in_ttf"
  let ?out = "if wght_left axes = []
          then ?h\<lparr>VORG := None, VVAR := None, fvar := None\<rparr>
          else ?h\<lparr>VORG := None, VVAR := Some (v\<lparr>VOrgMap := None\<rparr>),
                  fvar := Some (wght_left axes)\<rparr>"
  have d: "drop_vorg_and_instantiate ?h = Inr ?out"
    using assms by (intro drop_vorg_and_instantiate_ok) simp_all
  have r: "process_ttf_worker patch in_ttf out_ttf temp_dir w =
      save_ttf ?out out_ttf
        (emit (VFINST ?c) (emit (SUBSET ?c) (write_file ?c (Font g)
           (emit (ADD_CHWS in_ttf) (ensure_parent_dir ?c w)))))"
    using assms(1,2,3) by (simp add: worker_loaded Let_def d)
  have 1: "fst (process_ttf_worker patch in_ttf out_ttf temp_dir w) = Inr ()"
    and 2: "files (snd (process_ttf_worker patch in_ttf out_ttf temp_dir w)) out_ttf
              = Some (Font ?out)"
    unfolding r by (simp_all add: save_ttf_def)
  have 3: "VORG ?out = None" and 4: "name_table ?out = name_table g"
    and 6: "fvar ?out = (if wght_left axes = [] then None else Some (wght_left axes))"
    and 7: "VVAR ?out = (if wght_left axes = [] then None else Some (v\<lparr>VOrgMap := None\<rparr>))"
    by simp_all
  have 5: "cmap ?out = filter (\<lambda>(c, n). c \<notin> EXCLUDED_CODEPOINTS) (cmap g)"
    by (simp add: delete_from_cmap_def)
  have 8: "(fvar ?out = None) =
          (\<forall>a\<in>set axes. axisTag a = ''wght'' \<and>
             min (max 100 (minValue a)) (maxValue a) = min (max 900 (minValue a)) (maxValue a))"
    unfolding 6 using wght_left_empty [of axes] by simp
  have 9: "(\<forall>a\<in>set axes. minValue a \<le> maxValue a) \<longrightarrow>
          (fvar ?out = None) =
          (\<forall>a\<in>set axes. axisTag a = ''wght'' \<and>
             (minValue a = maxValue a \<or> maxValue a \<le> 100 \<or> 900 \<le> minValue a))"
  proof
    assume wf: "\<forall>a\<in>set axes. minValue a \<le> maxValue a"
    have "(min (max 100 (minValue a)) (maxValue a) = min (max 900 (minValue a)) (maxValue a))
        = (minValue a = maxValue a \<or> maxValue a \<le> 100 \<or> 900 \<le> minValue a)"
      if "a \<in> set axes" for a
      using wf that by (auto simp add: min_def max_def)
    then show "(fvar ?out = None) =
          (\<forall>a\<in>set axes. axisTag a = ''wght'' \<and>
             (minValue a = maxValue a \<or> maxValue a \<le> 100 \<or> 900 \<le> minValue a))"
      unfolding 8 by auto
  qed
  show ?thesis
    by (rule exI [of _ ?out]) (intro conjI 1 2 3 4 5 6 7 8 9)
qed

theorem transform_variable_font_witness:
  "fvar noto_vf = Some [\<lparr>axisTag = ''wght'', minValue = 100, defaultValue = 100, maxValue = 900\<rparr>]
   \<and> VORG noto_vf = Some [(''A'', 880)]
   \<and> (\<exists>out. fst (process_ttf_worker Inr [''i''] [''o''] [''t'']
                    (one_file [''i''] (Font noto_vf))) = Inr ()
         \<and> files (snd (process_ttf_worker Inr [''i''] [''o''] [''t'']
                    (one_file [''i''] (Font noto_vf)))) [''o''] = Some (Font out)
         \<and> VORG out = None
         \<and> name_table out = [''Noto'']
         \<and> cmap out = [(0x0041, ''A'')]
         \<and> fvar out = Some [\<lparr>axisTag = ''wght'', minValue = 100, defaultValue = 400,
                               maxValue = 900\<rparr>])"
proof -
  have h3: "fvar noto_vf = Some [\<lparr>axisTag = ''wght'', minValue = 100, defaultValue = 100,
      maxValue = 900\<rparr>]"
    and h4: "''wght'' \<in> axisTag ` set [\<lparr>axisTag = ''wght'', minValue = 100, defaultValue = 100,
      maxValue = 900\<rparr>]"
    and h5: "VORG noto_vf = Some [(''A'', 880)]"
    and h6: "VVAR noto_vf = Some \<lparr>AdvHeightMap = Some [0], VOrgMap = Some [0]\<rparr>"
    by (simp_all add: noto_vf_def)
  have n: "name_table noto_vf = [''Noto'']"
    and m: "filter (\<lambda>(c, n). c \<notin> EXCLUDED_CODEPOINTS) (cmap noto_vf) = [(0x0041, ''A'')]"
    by (simp_all add: noto_vf_def excluded_simps)
  from transform_variable_font
         [OF files_one_file, where patch = Inr and g = noto_vf
          and out_ttf = "[''o'']" and temp_dir = "[''t'']", OF refl h3 h4 h5 h6]
  obtain out where
    "fst (process_ttf_worker Inr [''i''] [''o''] [''t''] (one_file [''i''] (Font noto_vf))) = Inr ()"
    "files (snd (process_ttf_worker Inr [''i''] [''o''] [''t'']
        (one_file [''i''] (Font noto_vf)))) [''o''] = Some (Font out)"
    "VORG out = None" "name_table out = [''Noto'']" "cmap out = [(0x0041, ''A'')]"
    "fvar out = Some [\<lparr>axisTag = ''wght'', minValue = 100, defaultValue = 400,
                               maxValue = 900\<rparr>]"
    unfolding n m wght_left_noto by auto
  then show ?thesis
    using h3 h5 by blast
qed

text \<open>
  The claim as the specification states it fails at two fonts that declare a weight
  axis: one without a \<^verbatim>\<open>'VORG'\<close> table, where the worker raises and saves nothing, and
  one with all three tables, where the saved font still has its weight axis.
\<close>

theorem transform_variable_font_counterexample:
  "fst (process_ttf_worker Inr [''i''] [''o''] [''t'']
          (one_file [''i''] (Font (noto_vf\<lparr>VORG := None\<rparr>)))) = Inl (KeyError ''VORG'')
   \<and> files (snd (process_ttf_worker Inr [''i''] [''o''] [''t'']
          (one_file [''i''] (Font (noto_vf\<lparr>VORG := None\<rparr>))))) [''o''] = None
   \<and> files (snd (process_ttf_worker Inr [''i''] [''o''] [''t'']
          (one_file [''i''] (Font noto_vf)))) [''o''] =
       Some (Font
         \<lparr>cmap = [(0x0041, ''A'')],
          fvar = Some [\<lparr>axisTag = ''wght'', minValue = 100, defaultValue = 400, maxValue = 900\<rparr>],
          VORG = None,
          VVAR = Some \<lparr>AdvHeightMap = Some [0], VOrgMap = None\<rparr>,
          name_table = [''Noto'']\<rparr>)"
proof -
  have c: "chws_path [''t''] [''i''] = [''t'', ''intermediate_chws'', ''i'']"
    by (simp add: chws_path_def pjoin_def path_name_def)
  have n: "files (one_file [''i''] (Font (noto_vf\<lparr>VORG := None\<rparr>))) [''o''] = None"
    by (simp add: one_file_def)
  show ?thesis
    by (simp add: worker_on_noto_vf [OF files_one_file]
        worker_on_noto_without_VORG [OF files_one_file] c n save_ttf_def noto_vf_out_def)
qed

subsection \<open>The exclusion set in every state\<close>

lemma EXCLUDED_CODEPOINTS_literal:
  "EXCLUDED_CODEPOINTS =
     ({0x26BD, 0x26BE, 0x1F18E, 0x1F191, 0x1F192, 0x1F193, 0x1F194, 0x1F195, 0x1F196,
          0x1F197, 0x1F198, 0x1F199, 0x1F19A, 0x1F201, 0x1F21A, 0x1F22F, 0x1F232, 0x1F233,
          0x1F234, 0x1F235, 0x1F236, 0x1F238, 0x1F239, 0x1F23A, 0x1F250, 0x1F251}
        \<union> {0x2600, 0x2601, 0x260E, 0x261D, 0x263A, 0x2660, 0x2663, 0x2665, 0x2666, 0x270C,
           0x2744, 0x2764}
        \<union> {0x0000..0x001F})"
  by (simp only: EXCLUDED_CODEPOINTS_union CONTROL_CHARS_range EMOJI_IN_CJK_def
      ANDROID_EMOJI_def)

lemma cmap_drop_vorg_and_instantiate:
  "drop_vorg_and_instantiate f = Inr f' \<Longrightarrow> cmap f' = cmap f"
  by (auto simp add: drop_vorg_and_instantiate_def instantiateVariableFont_def Let_def
      split: if_splits option.splits)

lemma worker_saves_filtered_cmap:
  assumes "files w in_ttf = Some (Font f)" and "patch f = Inr g"
    and "fst (process_ttf_worker patch in_ttf out_ttf temp_dir w) = Inr ()"
  shows "\<exists>out. files (snd (process_ttf_worker patch in_ttf out_ttf temp_dir w)) out_ttf
                 = Some (Font out)
             \<and> cmap out = filter (\<lambda>(c, n). c \<notin> EXCLUDED_CODEPOINTS) (cmap g)"
proof -
  let ?c = "chws_path temp_dir in_ttf"
  let ?w3 = "emit (SUBSET ?c) (write_file ?c (Font g)
               (emit (ADD_CHWS in_ttf) (ensure_parent_dir ?c w)))"
  let ?font1 = "delete_from_cmap g EXCLUDED_CODEPOINTS"
  note wl = worker_loaded [where patch = patch and f = f and g = g and out_ttf = out_ttf
      and temp_dir = temp_dir, OF assms(1,2)]
  have c1: "cmap ?font1 = filter (\<lambda>(c, n). c \<notin> EXCLUDED_CODEPOINTS) (cmap g)"
    by (simp add: delete_from_cmap_def)
  show ?thesis
  proof (cases "fvar g = None")
    case True
    with wl have r: "process_ttf_worker patch in_ttf out_ttf temp_dir w
        = save_ttf ?font1 out_ttf ?w3"
      by (simp add: Let_def)
    show ?thesis
      unfolding r by (rule exI [of _ ?font1]) (simp add: save_ttf_def c1)
  next
    case False
    then obtain font2 where d: "drop_vorg_and_instantiate ?font1 = Inr font2"
      using wl assms(3) by (cases "drop_vorg_and_instantiate ?font1") (simp_all add: Let_def)
    with wl False have r: "process_ttf_worker patch in_ttf out_ttf temp_dir w
        = save_ttf font2 out_ttf (emit (VFINST ?c) ?w3)"
      by (simp add: Let_def)
    have "cmap font2 = cmap ?font1"
      using d by (rule cmap_drop_vorg_and_instantiate)
    then show ?thesis
      unfolding r by (intro exI [of _ font2]) (simp add: save_ttf_def c1)
  qed
qed

text \<open>
  C6. The exclusion set is a constant with exactly these members: the 26 CJK-context
  emoji-style codepoints, the 12 Android emoji overrides, and the ASCII control
  characters 0x0000 to 0x001F. It contains 0x26BD and 0x0009 and does not contain
  0x0041. No operation changes it: in every state of the staging tree, whatever has run
  before, a transform that returns normally has saved the patched font's character map
  without exactly these codepoints.
\<close>

theorem excluded_codepoints_constant:
  "EXCLUDED_CODEPOINTS =
     ({0x26BD, 0x26BE, 0x1F18E, 0x1F191, 0x1F192, 0x1F193, 0x1F194, 0x1F195, 0x1F196,
          0x1F197, 0x1F198, 0x1F199, 0x1F19A, 0x1F201, 0x1F21A, 0x1F22F, 0x1F232, 0x1F233,
          0x1F234, 0x1F235, 0x1F236, 0x1F238, 0x1F239, 0x1F23A, 0x1F250, 0x1F251}
        \<union> {0x2600, 0x2601, 0x260E, 0x261D, 0x263A, 0x2660, 0x2663, 0x2665, 0x2666, 0x270C,
           0x2744, 0x2764}
        \<union> {0x0000..0x001F})
   \<and> 0x26BD \<in> EXCLUDED_CODEPOINTS
   \<and> 0x0009 \<in> EXCLUDED_CODEPOINTS
   \<and> 0x0041 \<notin> EXCLUDED_CODEPOINTS
   \<and> (\<forall>w patch in_ttf out_ttf temp_dir f g.
         files w in_ttf = Some (Font f) \<longrightarrow> patch f = Inr g \<longrightarrow>
         fst (process_ttf_worker patch in_ttf out_ttf temp_dir w) = Inr () \<longrightarrow>
         (\<exists>out. files (snd (process_ttf_worker patch in_ttf out_ttf temp_dir w)) out_ttf
                  = Some (Font out)
            \<and> cmap out =
                filter (\<lambda>(c, n). c \<notin>
     ({0x26BD, 0x26BE, 0x1F18E, 0x1F191, 0x1F192, 0x1F193, 0x1F194, 0x1F195, 0x1F196,
          0x1F197, 0x1F198, 0x1F199, 0x1F19A, 0x1F201, 0x1F21A, 0x1F22F, 0x1F232, 0x1F233,
          0x1F234, 0x1F235, 0x1F236, 0x1F238, 0x1F239, 0x1F23A, 0x1F250, 0x1F251}
        \<union> {0x2600, 0x2601, 0x260E, 0x261D, 0x263A, 0x2660, 0x2663, 0x2665, 0x2666, 0x270C,
           0x2744, 0x2764}
        \<union> {0x0000..0x001F})) (cmap g)))"
proof -
  have a: "0x26BD \<in> EXCLUDED_CODEPOINTS"
    and b: "0x0009 \<in> EXCLUDED_CODEPOINTS"
    and c: "0x0041 \<notin> EXCLUDED_CODEPOINTS"
    by (rule excluded_simps)+
  have d: "\<forall>w patch in_ttf out_ttf temp_dir f g.
         files w in_ttf = Some (Font f) \<longrightarrow> patch f = Inr g \<longrightarrow>
         fst (process_ttf_worker patch in_ttf out_ttf temp_dir w) = Inr () \<longrightarrow>
         (\<exists>out. files (snd (process_ttf_worker patch in_ttf out_ttf temp_dir w)) out_ttf
                  = Some (Font out)
            \<and> cmap out = filter (\<lambda>(c, n). c \<notin> EXCLUDED_CODEPOINTS) (cmap g))"
    by (intro allI impI) (rule worker_saves_filtered_cmap)
  from a b c d show ?thesis
    unfolding EXCLUDED_CODEPOINTS_literal [symmetric]
    by (intro conjI refl)
qed

theorem excluded_codepoints_constant_witness:
  "files (one_file [''i''] (Font noto_vf)) [''i''] = Some (Font noto_vf)
   \<and> fst (process_ttf_worker Inr [''i''] [''o''] [''t''] (one_file [''i''] (Font noto_vf))) = Inr ()
   \<and> cmap noto_vf = [(0x0041, ''A''), (0x26BD, ''soccer''), (0x0009, ''tab'')]
   \<and> (\<exists>out. files (snd (process_ttf_worker Inr [''i''] [''o''] [''t'']
                  (one_file [''i''] (Font noto_vf)))) [''o''] = Some (Font out)
          \<and> cmap out = [(0x0041, ''A'')])"
proof -
  have h: "files (one_file [''i''] (Font noto_vf)) [''i''] = Some (Font noto_vf)"
    by (rule files_one_file)
  have ok: "fst (process_ttf_worker Inr [''i''] [''o''] [''t''] (one_file [''i''] (Font noto_vf)))
      = Inr ()"
    by (simp add: worker_on_noto_vf [OF files_one_file] save_ttf_def)
  have m: "cmap noto_vf = [(0x0041, ''A''), (0x26BD, ''soccer''), (0x0009, ''tab'')]"
    by (simp add: noto_vf_def)
  note t = excluded_codepoints_constant [THEN conjunct2, THEN conjunct2, THEN conjunct2,
      THEN conjunct2, rule_format,
      where w = "one_file [''i''] (Font noto_vf)" and patch = Inr and f = noto_vf
        and g = noto_vf and in_ttf = "[''i'']" and out_ttf = "[''o'']" and temp_dir = "[''t'']",
      OF h refl ok]
  from t obtain out where
    "files (snd (process_ttf_worker Inr [''i''] [''o''] [''t''] (one_file [''i''] (Font noto_vf))))
        [''o''] = Some (Font out)"
    and "cmap out = [(0x0041, ''A'')]"
    unfolding m by auto
  with h ok m show ?thesis by blast
qed

subsection \<open>Unpacking and packing a collection\<close>

lemma of_char_digit_char: "d < 10 \<Longrightarrow> (of_char (digit_char d) :: nat) = 48 + d"
proof -
  assume "d < 10"
  then have "d \<in> {0, 1, 2, 3, 4, 5, 6, 7, 8, 9}"
    by auto
  then show ?thesis
    by (auto simp add: digit_char_def)
qed

lemma dec_value_str_nat: "dec_value (str_nat n) = n"
proof (induction n rule: str_nat.induct)
  case (1 n)
  show ?case
  proof (cases "n < 10")
    case True
    then show ?thesis by (subst str_nat.simps) (simp add: dec_value_def of_char_digit_char)
  next
    case False
    have "dec_value (str_nat n) = 10 * dec_value (str_nat (n div 10)) + (of_char (digit_char (n mod 10)) - 48)"
      using False by (subst str_nat.simps) (simp add: dec_value_def)
    also have "\<dots> = 10 * (n div 10) + n mod 10"
      using 1 False by (simp add: of_char_digit_char)
    finally show ?thesis by simp
  qed
qed

lemma str_nat_inj: "str_nat i = str_nat j \<Longrightarrow> i = j"
  by (metis dec_value_str_nat)

lemma member_name_inj: "member_name p i = member_name p j \<Longrightarrow> i = j"
  by (auto simp add: member_name_def dest: str_nat_inj)

lemma member_name_not_empty: "member_name p i \<noteq> []" "member_name p i \<noteq> ''.''"
  by (auto simp add: member_name_def append_eq_Cons_conv)

lemma pjoin_member: "pjoin d (member_name p i) = d @ [member_name p i]"
  by (simp add: pjoin_def member_name_not_empty)

lemma member_path_inj: "pjoin d (member_name p i) = pjoin d (member_name p j) \<Longrightarrow> i = j"
  by (simp add: pjoin_member member_name_inj)

lemma member_path_not_container: "pjoin d (member_name p i) \<noteq> p"
proof
  assume a: "pjoin d (member_name p i) = p"
  then have "p \<noteq> []" by (auto simp add: pjoin_member)
  with a have "last p = member_name p i" by (metis pjoin_member last_snoc)
  then have "length (last p) = length (member_name p i)" by simp
  with \<open>p \<noteq> []\<close> show False by (simp add: member_name_def path_name_def)
qed

lemma unpack_ttc_worker_ok:
  assumes "files w in_ttc = Some (Collection ms)" and "i < length ms"
  shows "unpack_ttc_worker in_ttc i out w =
     (Inr (), write_file out (Font (ms ! i)) (ensure_parent_dir out (emit (UNTTC_TO in_ttc out) w)))"
  using assms by (simp add: unpack_ttc_worker_def TTCollection_def Let_def)

lemma gather_unpack_workers:
  assumes "files w in_ttc = Some (Collection ms)"
    and "\<forall>i\<in>set ixs. i < length ms" and "distinct ixs"
    and "\<And>i. P i \<noteq> in_ttc" and "inj P"
  shows "fst (gather (map (\<lambda>i. unpack_ttc_worker in_ttc i (P i)) ixs) w) = Inr ()
     \<and> (\<forall>i\<in>set ixs. files (snd (gather (map (\<lambda>i. unpack_ttc_worker in_ttc i (P i)) ixs) w)) (P i)
            = Some (Font (ms ! i)))
     \<and> (\<forall>p. p \<notin> P ` set ixs \<longrightarrow>
            files (snd (gather (map (\<lambda>i. unpack_ttc_worker in_ttc i (P i)) ixs) w)) p = files w p)"
  using assms(1,2,3)
proof (induction ixs arbitrary: w)
  case Nil
  then show ?case by simp
next
  case (Cons i ixs)
  let ?w1 = "write_file (P i) (Font (ms ! i)) (ensure_parent_dir (P i) (emit (UNTTC_TO in_ttc (P i)) w))"
  have step: "unpack_ttc_worker in_ttc i (P i) w = (Inr (), ?w1)"
    using Cons.prems by (intro unpack_ttc_worker_ok) simp_all
  have g: "gather (map (\<lambda>i. unpack_ttc_worker in_ttc i (P i)) (i # ixs)) w =
           gather (map (\<lambda>i. unpack_ttc_worker in_ttc i (P i)) ixs) ?w1"
    by (simp add: step)
  have c1: "files ?w1 in_ttc = Some (Collection ms)"
    using Cons.prems(1) assms(4) [of i] by simp
  have ih: "fst (gather (map (\<lambda>i. unpack_ttc_worker in_ttc i (P i)) ixs) ?w1) = Inr ()
     \<and> (\<forall>j\<in>set ixs. files (snd (gather (map (\<lambda>i. unpack_ttc_worker in_ttc i (P i)) ixs) ?w1)) (P j)
            = Some (Font (ms ! j)))
     \<and> (\<forall>p. p \<notin> P ` set ixs \<longrightarrow>
            files (snd (gather (map (\<lambda>i. unpack_ttc_worker in_ttc i (P i)) ixs) ?w1)) p = files ?w1 p)"
    using Cons.prems by (intro Cons.IH c1) simp_all
  have ni: "P i \<notin> P ` set ixs"
    using Cons.prems(3) assms(5) by (auto dest: injD)
  show ?case
    unfolding g using ih ni by auto
qed

lemma unpack_ttc_result:
  assumes "files w in_ttc = Some (Collection ms)"
  shows "\<exists>w2. unpack_ttc in_ttc out_dir w =
              (Inr (map (\<lambda>i. pjoin out_dir (member_name in_ttc i)) [0..<length ms]), w2)
     \<and> (\<forall>i<length ms. files w2 (pjoin out_dir (member_name in_ttc i)) = Some (Font (ms ! i)))
     \<and> (\<forall>p. p \<notin> (\<lambda>i. pjoin out_dir (member_name in_ttc i)) ` {..<length ms}
            \<longrightarrow> files w2 p = files w p)"
proof -
  let ?P = "\<lambda>i. pjoin out_dir (member_name in_ttc i)"
  let ?w1 = "emit (UNTTC in_ttc) w"
  let ?g = "gather (map (\<lambda>i. unpack_ttc_worker in_ttc i (?P i)) [0..<length ms]) ?w1"
  have c: "files ?w1 in_ttc = Some (Collection ms)"
    using assms by simp
  have "inj ?P"
    by (rule injI) (rule member_path_inj)
  then have G: "fst ?g = Inr ()
     \<and> (\<forall>i\<in>set [0..<length ms]. files (snd ?g) (?P i) = Some (Font (ms ! i)))
     \<and> (\<forall>p. p \<notin> ?P ` set [0..<length ms] \<longrightarrow> files (snd ?g) p = files ?w1 p)"
    by (intro gather_unpack_workers c) (simp_all add: member_path_not_container)
  obtain w2 where ge: "?g = (Inr (), w2)"
    using G by (cases ?g) simp
  have u: "unpack_ttc in_ttc out_dir w = (Inr (map ?P [0..<length ms]), w2)"
    using c ge by (simp add: unpack_ttc_def TTCollection_def Let_def)
  show ?thesis
    unfolding u using G unfolding ge by (simp add: lessThan_atLeast0)
qed

lemma member_path_eq:
  "pjoin out_dir (member_name in_ttc i) =
     out_dir @ [path_name in_ttc @ ''#'' @ str_nat i @ ''.ttf'']"
  by (simp add: pjoin_member) (simp add: member_name_def)

text \<open>
  C7. For a collection file of N members, \<^verbatim>\<open>unpack_ttc\<close> returns the N paths
  \<^verbatim>\<open>out_dir/<name>#<i>.ttf\<close> for i from 0 to N - 1, in that order, the file at path i holds
  member i of the collection, and no other path of the tree is changed.
\<close>

theorem unpack_ttc_paths_and_members:
  assumes "files w in_ttc = Some (Collection ms)"
  shows "fst (unpack_ttc in_ttc out_dir w) =
           Inr (map (\<lambda>i. out_dir @ [path_name in_ttc @ ''#'' @ str_nat i @ ''.ttf'']) [0..<length ms])
     \<and> (\<forall>i<length ms.
            files (snd (unpack_ttc in_ttc out_dir w))
              (out_dir @ [path_name in_ttc @ ''#'' @ str_nat i @ ''.ttf'']) = Some (Font (ms ! i)))
     \<and> (\<forall>p. p \<notin> (\<lambda>i. out_dir @ [path_name in_ttc @ ''#'' @ str_nat i @ ''.ttf'']) ` {..<length ms}
            \<longrightarrow> files (snd (unpack_ttc in_ttc out_dir w)) p = files w p)"
  using unpack_ttc_result [OF assms, of out_dir]
  by (auto simp add: member_path_eq)


lemma str_nat_digits: "str_nat 0 = ''0''" "str_nat 1 = ''1''" "str_nat (Suc 0) = ''1''" "str_nat 2 = ''2''"
  by (subst str_nat.simps, simp add: digit_char_def)+

theorem unpack_ttc_paths_and_members_witness:
  "files (one_file [''c''] (Collection [noto_vf, noto_vf\<lparr>VORG := None\<rparr>])) [''c'']
      = Some (Collection [noto_vf, noto_vf\<lparr>VORG := None\<rparr>])
   \<and> fst (unpack_ttc [''c''] [''d''] (one_file [''c''] (Collection [noto_vf, noto_vf\<lparr>VORG := None\<rparr>])))
      = Inr [[''d'', ''c#0.ttf''], [''d'', ''c#1.ttf'']]
   \<and> files (snd (unpack_ttc [''c''] [''d'']
         (one_file [''c''] (Collection [noto_vf, noto_vf\<lparr>VORG := None\<rparr>])))) [''d'', ''c#1.ttf'']
      = Some (Font (noto_vf\<lparr>VORG := None\<rparr>))"
proof -
  let ?w = "one_file [''c''] (Collection [noto_vf, noto_vf\<lparr>VORG := None\<rparr>])"
  have h: "files ?w [''c''] = Some (Collection [noto_vf, noto_vf\<lparr>VORG := None\<rparr>])"
    by (rule files_one_file)
  have u: "[0..<length [noto_vf, noto_vf\<lparr>VORG := None\<rparr>]] = [0, 1]"
    by (simp add: upt_rec)
  note t = unpack_ttc_paths_and_members [OF h, of "[''d'']"]
  from t have 1: "fst (unpack_ttc [''c''] [''d''] ?w) = Inr [[''d'', ''c#0.ttf''], [''d'', ''c#1.ttf'']]"
    unfolding u by (simp add: path_name_def str_nat_digits)
  from t have "\<forall>i<length [noto_vf, noto_vf\<lparr>VORG := None\<rparr>].
      files (snd (unpack_ttc [''c''] [''d''] ?w)) ([''d''] @ [path_name [''c''] @ ''#'' @ str_nat i @ ''.ttf''])
        = Some (Font ([noto_vf, noto_vf\<lparr>VORG := None\<rparr>] ! i))"
    by blast
  from this [rule_format, of 1]
  have 2: "files (snd (unpack_ttc [''c''] [''d''] ?w)) [''d'', ''c#1.ttf'']
      = Some (Font (noto_vf\<lparr>VORG := None\<rparr>))"
    by (simp add: path_name_def str_nat_digits)
  from h 1 2 show ?thesis by blast
qed

lemma load_fonts_all:
  "list_all2 (\<lambda>p f. files w p = Some (Font f)) ps fs \<Longrightarrow> load_fonts w ps = Inr fs"
  by (induction rule: list_all2_induct) (simp_all add: TTFont_def)

text \<open>
  C4. For a collection file with members \<open>ms\<close>, \<^verbatim>\<open>unpack_ttc\<close> followed by \<^verbatim>\<open>pack_ttc\<close> on the
  paths it returned writes a collection with the same members in the same order (so
  with the same number of members). A font saved and loaded again is the same font in
  the model.
\<close>

theorem unpack_then_pack_roundtrip:
  assumes "files w in_ttc = Some (Collection ms)"
  shows "\<exists>paths w1. unpack_ttc in_ttc out_dir w = (Inr paths, w1)
     \<and> length paths = length ms
     \<and> fst (pack_ttc paths out_ttc w1) = Inr ()
     \<and> files (snd (pack_ttc paths out_ttc w1)) out_ttc = Some (Collection ms)"
proof -
  let ?paths = "map (\<lambda>i. pjoin out_dir (member_name in_ttc i)) [0..<length ms]"
  from unpack_ttc_result [OF assms, of out_dir]
  obtain w1 where u: "unpack_ttc in_ttc out_dir w = (Inr ?paths, w1)"
    and m: "\<forall>i<length ms. files w1 (pjoin out_dir (member_name in_ttc i)) = Some (Font (ms ! i))"
    by blast
  have "list_all2 (\<lambda>p f. files (emit (TTC out_ttc) w1) p = Some (Font f)) ?paths ms"
    using m by (simp add: list_all2_conv_all_nth)
  then have l: "load_fonts (emit (TTC out_ttc) w1) ?paths = Inr ms"
    by (rule load_fonts_all)
  have p: "pack_ttc ?paths out_ttc w1 =
     (Inr (), write_file out_ttc (Collection ms) (ensure_parent_dir out_ttc (emit (TTC out_ttc) w1)))"
    by (simp add: pack_ttc_def Let_def l)
  show ?thesis
    by (rule exI [of _ ?paths], rule exI [of _ w1]) (simp add: u p)
qed

theorem unpack_then_pack_roundtrip_witness:
  "files (one_file [''c''] (Collection [noto_vf, noto_vf\<lparr>VORG := None\<rparr>])) [''c'']
      = Some (Collection [noto_vf, noto_vf\<lparr>VORG := None\<rparr>])
   \<and> (\<exists>paths w1.
         unpack_ttc [''c''] [''d''] (one_file [''c''] (Collection [noto_vf, noto_vf\<lparr>VORG := None\<rparr>]))
           = (Inr paths, w1)
       \<and> length paths = 2
       \<and> fst (pack_ttc paths [''o''] w1) = Inr ()
       \<and> files (snd (pack_ttc paths [''o''] w1)) [''o'']
           = Some (Collection [noto_vf, noto_vf\<lparr>VORG := None\<rparr>]))"
proof -
  let ?w = "one_file [''c''] (Collection [noto_vf, noto_vf\<lparr>VORG := None\<rparr>])"
  have h: "files ?w [''c''] = Some (Collection [noto_vf, noto_vf\<lparr>VORG := None\<rparr>])"
    by (rule files_one_file)
  from unpack_then_pack_roundtrip [OF h, of "[''d'']" "[''o'']"]
  obtain paths w1 where "unpack_ttc [''c''] [''d''] ?w = (Inr paths, w1)"
    and "length paths = 2" and "fst (pack_ttc paths [''o''] w1) = Inr ()"
    and "files (snd (pack_ttc paths [''o''] w1)) [''o'']
           = Some (Collection [noto_vf, noto_vf\<lparr>VORG := None\<rparr>])"
    by auto
  with h show ?thesis by blast
qed


subsection \<open>The fetcher\<close>




subsection \<open>The download gate\<close>

lemma filter_update_count:
  assumes "k < length xs"
  shows "length (filter P (xs[k := y])) + (if P (xs ! k) then 1 else 0)
       = length (filter P xs) + (if P y then 1 else 0)"
  using assms
proof (induction xs arbitrary: k)
  case Nil
  then show ?case by simp
next
  case (Cons x xs)
  then show ?case
    by (cases k) auto
qed

lemma map_gated_update:
  "k < length xs \<Longrightarrow> map gated (xs[k := (xs ! k)\<lparr>dl := d\<rparr>]) = map gated xs"
  by (simp add: map_update list_update_same_conv)

lemma dl_step_inv:
  assumes "gate_inv n ts s"
  shows "gate_inv n ts (dl_step k s)"
proof (cases "k < length (tasks s)")
  case False
  with assms show ?thesis by (simp add: dl_step_def)
next
  case True
  let ?t = "tasks s ! k"
  let ?P = "\<lambda>t. dl t = ACTIVE \<and> gated t"
  have c: "length (filter ?P ((tasks s)[k := ?t\<lparr>dl := d\<rparr>])) + (if ?P ?t then 1 else 0)
         = length (filter ?P (tasks s)) + (if ?P (?t\<lparr>dl := d\<rparr>) then 1 else 0)" for d
    using True by (rule filter_update_count)
  show ?thesis
  proof (cases "dl ?t")
    case WAITING
    then show ?thesis
      using assms True c [of ACTIVE]
      by (auto simp add: dl_step_def gate_inv_def active_gated_def Let_def map_gated_update)
  next
    case ACTIVE
    then show ?thesis
      using assms True c [of DONE]
      by (auto simp add: dl_step_def gate_inv_def active_gated_def Let_def map_gated_update)
  next
    case DONE
    then show ?thesis
      using assms True by (simp add: dl_step_def)
  qed
qed

lemma dl_run_inv: "gate_inv n ts s \<Longrightarrow> gate_inv n ts (dl_run sched s)"
  by (induction sched arbitrary: s) (simp_all add: dl_step_inv)

lemma gate_init_inv: "\<forall>t\<in>set ts. dl t = WAITING \<Longrightarrow> gate_inv n ts (gate_init n ts)"
  by (simp add: gate_inv_def gate_init_def active_gated_def filter_empty_conv)

lemma active_split:
  "length (filter (\<lambda>t. dl t = ACTIVE) xs)
     \<le> length (filter (\<lambda>t. dl t = ACTIVE \<and> gated t) xs) + length (filter (\<lambda>g. \<not> g) (map gated xs))"
  by (induction xs) auto

text \<open>
  C8, as amended. Whatever the event loop's schedule, with a gate of capacity \<open>n\<close> at
  most \<open>n\<close> of the downloads that were handed the gate are in transfer at once, and a
  permit is out for each of them. A download that was not handed the gate is not held
  back by it: the downloads in transfer are at most \<open>n\<close> plus the number of downloads
  without the gate.
\<close>

theorem gate_bounds_gated_downloads:
  assumes "\<forall>t\<in>set ts. dl t = WAITING"
  shows "active_gated (dl_run sched (gate_init n ts)) \<le> n
       \<and> permits (dl_run sched (gate_init n ts)) + active_gated (dl_run sched (gate_init n ts)) = n
       \<and> active (dl_run sched (gate_init n ts)) \<le> n + length (filter (\<lambda>t. \<not> gated t) ts)"
proof -
  let ?s = "dl_run sched (gate_init n ts)"
  have i: "gate_inv n ts ?s"
    using assms by (intro dl_run_inv gate_init_inv)
  then have 1: "permits ?s + active_gated ?s = n" and m: "map gated (tasks ?s) = map gated ts"
    by (simp_all add: gate_inv_def)
  have "active ?s \<le> active_gated ?s + length (filter (\<lambda>g. \<not> g) (map gated (tasks ?s)))"
    unfolding active_def active_gated_def by (rule active_split)
  also have "\<dots> = active_gated ?s + length (filter (\<lambda>t. \<not> gated t) ts)"
    unfolding m by (simp add: filter_map comp_def)
  finally show ?thesis using 1 by simp
qed


theorem gate_bounds_gated_downloads_witness:
  "map dl (download_tasks None) = [WAITING, WAITING, WAITING]
   \<and> active_gated (dl_run [0, 1, 2] (gate_init 2 (download_tasks None))) \<le> 2
   \<and> active (dl_run [0, 1, 2] (gate_init 2 (download_tasks None))) \<le> 3"
proof -
  have h: "\<forall>t\<in>set (download_tasks None). dl t = WAITING"
    by (simp add: download_tasks_def urls_of_def build_module_def DEFAULT_DOWNLOADING_FONTS_def)
  have l: "length (filter (\<lambda>t. \<not> gated t) (download_tasks None)) = 1"
    by (simp add: download_tasks_def urls_of_def build_module_def DEFAULT_DOWNLOADING_FONTS_def)
  have m: "map dl (download_tasks None) = [WAITING, WAITING, WAITING]"
    by (simp add: download_tasks_def urls_of_def build_module_def DEFAULT_DOWNLOADING_FONTS_def)
  from gate_bounds_gated_downloads [OF h, of "[0, 1, 2]" 2] m l
  show ?thesis by simp
qed

text \<open>
  The claim as the specification states it fails on the default run: its three
  downloads, the two fonts and the installer script, are all in transfer at once behind
  a gate of capacity 2.
\<close>

theorem gate_bounds_gated_downloads_counterexample:
  "length (download_tasks None) = 3
   \<and> active (dl_run [0, 1, 2] (gate_init 2 (download_tasks None))) = 3"
  by (simp add: download_tasks_def urls_of_def build_module_def DEFAULT_DOWNLOADING_FONTS_def
      gate_init_def dl_step_def active_def Let_def)


subsection \<open>The events a chain prints\<close>

lemma quiet_refl [simp]: "quiet w w"
  by (simp add: quiet_def)

lemma quiet_trans: "quiet a b \<Longrightarrow> quiet b c \<Longrightarrow> quiet a c"
  by (auto simp add: quiet_def)

lemma quiet_same_trace: "trace w' = trace w \<Longrightarrow> quiet w w'"
  by (simp add: quiet_def)

lemma quiet_emit: "\<not> closing e \<Longrightarrow> quiet w w' \<Longrightarrow> quiet w (emit e w')"
  by (auto simp add: quiet_def)

lemma quiet_write_file [simp]: "quiet w (write_file p c w') = quiet w w'"
  by (simp add: quiet_def)

lemma quiet_ensure_parent_dir [simp]: "quiet w (ensure_parent_dir p w') = quiet w w'"
  by (simp add: quiet_def)

lemma quiet_download_file: "quiet w0 w \<Longrightarrow> quiet w0 (snd (download_file h u p w))"
  by (auto simp add: download_file_def Let_def quiet_emit split: sum.splits)

lemma quiet_process_ttf_worker: "quiet w0 w \<Longrightarrow> quiet w0 (snd (process_ttf_worker pt i out t w))"
  by (auto simp add: process_ttf_worker_def add_chws_def save_ttf_def Let_def quiet_emit
      split: sum.splits prod.splits)

lemma quiet_unpack_ttc_worker: "quiet w0 w \<Longrightarrow> quiet w0 (snd (unpack_ttc_worker c i out w))"
  by (auto simp add: unpack_ttc_worker_def Let_def quiet_emit split: sum.splits)

lemma quiet_pack_ttc: "quiet w0 w \<Longrightarrow> quiet w0 (snd (pack_ttc ps out w))"
  by (auto simp add: pack_ttc_def Let_def quiet_emit split: sum.splits)

lemma quiet_member_step: "quiet w0 w \<Longrightarrow> quiet w0 (snd (member_step pt c t i s w))"
  using quiet_unpack_ttc_worker [of w0 w c i "input_ttf_path t c i"]
    quiet_process_ttf_worker [of w0 w pt "input_ttf_path t c i" "processed_ttf_path t c i" t]
  by (cases s) (auto split: prod.splits sum.splits)

lemma quiet_run_schedule:
  assumes "\<And>k s w. quiet w0 w \<Longrightarrow> quiet w0 (snd (step k s w))"
  shows "quiet w0 w \<Longrightarrow> quiet w0 (snd (run_schedule step ks st w))"
proof (induction ks arbitrary: st w)
  case Nil
  then show ?case by simp
next
  case (Cons k ks)
  show ?case
  proof (cases "k < length st \<and> st ! k \<noteq> FINISHED")
    case False
    then show ?thesis using Cons by auto
  next
    case True
    obtain r w' where s: "step k (st ! k) w = (r, w')" by (cases "step k (st ! k) w")
    have q: "quiet w0 w'" using assms [OF Cons.prems, of k "st ! k"] s by simp
    show ?thesis
      using True s q Cons.IH by (cases r) auto
  qed
qed

lemma quiet_process_ttc:
  assumes "quiet w0 w"
  shows "quiet w0 (snd (process_ttc sc pt c out t w))"
proof (cases "TTCollection w c")
  case (Inl e)
  with assms show ?thesis by (simp add: process_ttc_def)
next
  case (Inr ttc)
  let ?r = "run_schedule (member_step pt c t) (sc @ completion (length ttc))
              (replicate (length ttc) TO_UNPACK) w"
  have q: "quiet w0 (snd ?r)"
    using assms by (intro quiet_run_schedule quiet_member_step)
  obtain r w1 where s: "?r = (r, w1)" by (cases ?r)
  show ?thesis
    using Inr s q by (cases r) (simp_all add: process_ttc_def Let_def quiet_pack_ttc)
qed

lemma quiet_process_font: "quiet w0 w \<Longrightarrow> quiet w0 (snd (process_font sc pt c out t w))"
  by (auto simp add: process_font_def quiet_process_ttc quiet_process_ttf_worker
      split: sum.splits bool.splits)

lemma quiet_chain: "quiet w0 w \<Longrightarrow> quiet w0 (snd (download_and_process_file env u w))"
  using quiet_download_file [of w0 w "http_get env" u "input_file_of u"]
  by (auto simp add: download_and_process_file_def quiet_process_font split: prod.splits sum.splits)

lemma quiet_drop_result:
  "quiet w0 (snd (t w)) \<Longrightarrow> quiet w0 (snd (drop_result t w))"
  by (auto simp add: drop_result_def split: prod.splits sum.splits)

lemma quiet_gather:
  assumes "\<And>t w. t \<in> set ts \<Longrightarrow> quiet w0 w \<Longrightarrow> quiet w0 (snd (t w))"
  shows "quiet w0 w \<Longrightarrow> quiet w0 (snd (gather ts w))"
  using assms
proof (induction ts arbitrary: w)
  case Nil
  then show ?case by simp
next
  case (Cons t ts)
  obtain r w' where s: "t w = (r, w')" by (cases "t w")
  have q: "quiet w0 w'" using Cons.prems(2) [of t w] Cons.prems(1) s by simp
  show ?case
    using s q Cons by (cases r) auto
qed

lemma quiet_main_futures: "quiet w (snd (gather (main_futures arg env) w))"
proof (rule quiet_gather)
  fix t w'
  assume "t \<in> set (main_futures arg env)" and "quiet w w'"
  then show "quiet w (snd (t w'))"
    by (auto simp add: main_futures_def quiet_chain quiet_drop_result quiet_download_file
        split: if_splits)
qed simp

lemma closing_not_in_quiet:
  assumes "quiet w w'" and "closing e"
  shows "e \<notin> set (drop (length (trace w)) (trace w'))"
  using assms by (auto simp add: quiet_def list_all_iff)


subsection \<open>Runs of the driver on one URL\<close>

lemma io: "input_file_of font_url = [''temp'', ''input'', ''f'']"
  "output_file_of font_url = [''system'', ''fonts'', ''f'']"
  by (simp_all add: input_file_of_def output_file_of_def font_url_def last_segment_def
      pjoin_def main_temp_dir_def)

lemma chws_temp_f: "chws_path main_temp_dir [''temp'', ''input'', ''f''] = [''temp'', ''intermediate_chws'', ''f'']"
  by (simp add: chws_path_def pjoin_def path_name_def main_temp_dir_def)

lemma anc: "ancestors [''temp'', ''input'', ''f''] = [[''temp''], [''temp'', ''input'']]"
  "ancestors [''temp'', ''intermediate_chws'', ''f''] = [[''temp''], [''temp'', ''intermediate_chws'']]"
  "ancestors [''system'', ''fonts'', ''f''] = [[''system''], [''system'', ''fonts'']]"
  by (simp_all add: ancestors_def upt_rec)

lemma empty_world_simps:
  "files empty_world p = None" "dirs empty_world = {}" "trace empty_world = []"
  by (simp_all add: empty_world_def)



lemma main_futures_single:
  "main_futures (Some u) env = [download_and_process_file env u]"
  by (simp add: main_futures_def urls_of_def build_module_def)

lemma chain_fresh:
  assumes "c = Font g"
  shows "download_and_process_file (test_env 200 c) font_url empty_world =
     process_ttf_worker Inr [''temp'', ''input'', ''f''] [''system'', ''fonts'', ''f''] main_temp_dir
       (write_file [''temp'', ''input'', ''f''] c
          (ensure_parent_dir [''temp'', ''input'', ''f'']
             (emit (FETCH [''temp'', ''input'', ''f'']) empty_world)))"
  using assms
  by (simp add: download_and_process_file_def test_env_def io download_file_def answer_def Let_def
      process_font_def is_ttc_def empty_world_simps anc)

lemma main_ok_run:
  "fst (main (Some font_url) (test_env 200 (Font noto_vf)) empty_world) = Inr ()"
  "trace (snd (main (Some font_url) (test_env 200 (Font noto_vf)) empty_world)) =
     [FETCH [''temp'', ''input'', ''f''], ADD_CHWS [''temp'', ''input'', ''f''],
      SUBSET [''temp'', ''intermediate_chws'', ''f''], VFINST [''temp'', ''intermediate_chws'', ''f''],
      TTF [''system'', ''fonts'', ''f''], SHUTDOWN, RMTREE [''temp'']]"
  "files (snd (main (Some font_url) (test_env 200 (Font noto_vf)) empty_world)) [''temp'', ''input'', ''f''] = None"
  "files (snd (main (Some font_url) (test_env 200 (Font noto_vf)) empty_world)) [''system'', ''fonts'', ''f'']
     = Some (Font noto_vf_out)"
  by (simp_all add: main_def main_futures_single chain_fresh [OF refl] worker_on_noto_vf
      chws_temp_f chws_temp_f [unfolded main_temp_dir_def] save_ttf_def rmtree_def Let_def
      main_temp_dir_def anc empty_world_simps)

lemma main_fail_run:
  "main (Some font_url) (test_env 200 (Font (noto_vf\<lparr>VORG := None\<rparr>))) empty_world
     = gather (main_futures (Some font_url) (test_env 200 (Font (noto_vf\<lparr>VORG := None\<rparr>)))) empty_world"
  "fst (main (Some font_url) (test_env 200 (Font (noto_vf\<lparr>VORG := None\<rparr>))) empty_world)
     = Inl (KeyError ''VORG'')"
  "trace (snd (main (Some font_url) (test_env 200 (Font (noto_vf\<lparr>VORG := None\<rparr>))) empty_world)) =
     [FETCH [''temp'', ''input'', ''f''], ADD_CHWS [''temp'', ''input'', ''f''],
      SUBSET [''temp'', ''intermediate_chws'', ''f''], VFINST [''temp'', ''intermediate_chws'', ''f'']]"
  "files (snd (main (Some font_url) (test_env 200 (Font (noto_vf\<lparr>VORG := None\<rparr>))) empty_world))
      [''temp'', ''input'', ''f''] = Some (Font (noto_vf\<lparr>VORG := None\<rparr>))"
  by (simp_all add: main_def main_futures_single chain_fresh [OF refl] worker_on_noto_without_VORG
      chws_temp_f empty_world_simps)


subsection \<open>A failed download\<close>






subsection \<open>Teardown of the staging root\<close>

text \<open>
  C1, as amended. In a run in which every chain returns normally, the driver shuts the
  pool down and then calls the deletion of the staging root, once, as its last two
  acts. Where the staging root exists at that point the deletion succeeds: the run
  returns normally, no file under the staging root and no staging root is left, and
  every file outside it is as the chains left it. Where it does not exist the deletion
  raises. When a chain raises, the error leaves \<^verbatim>\<open>main\<close> at \<^verbatim>\<open>gather\<close>: the driver returns
  that error and the state the chains left, the pool is not shut down and the staging
  root is not deleted.
\<close>

theorem staging_teardown:
  "(fst (gather (main_futures arg env) w) = Inr () \<longrightarrow>
      (\<exists>evs. trace (snd (main arg env w)) = trace w @ evs @ [SHUTDOWN, RMTREE main_temp_dir]
          \<and> RMTREE main_temp_dir \<notin> set evs \<and> SHUTDOWN \<notin> set evs)
      \<and> (main_temp_dir \<in> dirs (snd (gather (main_futures arg env) w)) \<longrightarrow>
           fst (main arg env w) = Inr ()
           \<and> (\<forall>p. take (length main_temp_dir) p = main_temp_dir \<longrightarrow>
                  files (snd (main arg env w)) p = None)
           \<and> (\<forall>p. take (length main_temp_dir) p \<noteq> main_temp_dir \<longrightarrow>
                  files (snd (main arg env w)) p
                    = files (snd (gather (main_futures arg env) w)) p)
           \<and> main_temp_dir \<notin> dirs (snd (main arg env w)))
      \<and> (main_temp_dir \<notin> dirs (snd (gather (main_futures arg env) w)) \<longrightarrow>
           fst (main arg env w) = Inl (FileNotFoundError main_temp_dir)))
   \<and> (\<forall>e. fst (gather (main_futures arg env) w) = Inl e \<longrightarrow>
         main arg env w = gather (main_futures arg env) w
         \<and> RMTREE main_temp_dir \<notin> set (drop (length (trace w)) (trace (snd (main arg env w))))
         \<and> SHUTDOWN \<notin> set (drop (length (trace w)) (trace (snd (main arg env w)))))"
proof -
  obtain r w1 where g: "gather (main_futures arg env) w = (r, w1)"
    by (cases "gather (main_futures arg env) w")
  have q: "quiet w w1"
    using quiet_main_futures [of w arg env] g by simp
  then obtain evs where t: "trace w1 = trace w @ evs" and n: "list_all (\<lambda>e. \<not> closing e) evs"
    by (auto simp add: quiet_def)
  have n': "RMTREE main_temp_dir \<notin> set evs" and n'': "SHUTDOWN \<notin> set evs"
    using n by (auto simp add: list_all_iff)
  show ?thesis
  proof (cases r)
    case (Inl e)
    then show ?thesis
      using g t n' n'' by (simp add: main_def)
  next
    case (Inr u)
    then show ?thesis
      using g t n' n''
      by (auto simp add: main_def rmtree_def Let_def split: if_splits)
  qed
qed

lemma gather_ok_run:
  "fst (gather (main_futures (Some font_url) (test_env 200 (Font noto_vf))) empty_world) = Inr ()"
  "main_temp_dir
     \<in> dirs (snd (gather (main_futures (Some font_url) (test_env 200 (Font noto_vf))) empty_world))"
  by (simp_all add: main_futures_single chain_fresh [OF refl] worker_on_noto_vf
      chws_temp_f chws_temp_f [unfolded main_temp_dir_def] save_ttf_def
      main_temp_dir_def anc empty_world_simps)

theorem staging_teardown_witness:
  "fst (gather (main_futures (Some font_url) (test_env 200 (Font noto_vf))) empty_world) = Inr ()
   \<and> fst (main (Some font_url) (test_env 200 (Font noto_vf)) empty_world) = Inr ()
   \<and> (\<exists>evs. trace (snd (main (Some font_url) (test_env 200 (Font noto_vf)) empty_world))
               = evs @ [SHUTDOWN, RMTREE main_temp_dir]
            \<and> RMTREE main_temp_dir \<notin> set evs \<and> SHUTDOWN \<notin> set evs)
   \<and> files (snd (main (Some font_url) (test_env 200 (Font noto_vf)) empty_world))
         [''temp'', ''input'', ''f''] = None
   \<and> fst (gather (main_futures (Some font_url) (test_env 200 (Font (noto_vf\<lparr>VORG := None\<rparr>))))
           empty_world) = Inl (KeyError ''VORG'')
   \<and> RMTREE main_temp_dir
        \<notin> set (trace (snd (main (Some font_url) (test_env 200 (Font (noto_vf\<lparr>VORG := None\<rparr>)))
                    empty_world)))"
proof -
  note ok = staging_teardown [of "Some font_url" "test_env 200 (Font noto_vf)" empty_world,
      THEN conjunct1, rule_format, OF gather_ok_run(1)]
  note ko = staging_teardown
    [of "Some font_url" "test_env 200 (Font (noto_vf\<lparr>VORG := None\<rparr>))" empty_world]
  have 0: "fst (gather (main_futures (Some font_url) (test_env 200 (Font noto_vf))) empty_world)
      = Inr ()"
    by (rule gather_ok_run)
  from ok [THEN conjunct1]
  have 2: "\<exists>evs. trace (snd (main (Some font_url) (test_env 200 (Font noto_vf)) empty_world))
               = evs @ [SHUTDOWN, RMTREE main_temp_dir]
            \<and> RMTREE main_temp_dir \<notin> set evs \<and> SHUTDOWN \<notin> set evs"
    by (simp add: empty_world_simps)
  note del = ok [THEN conjunct2, THEN conjunct1, rule_format, OF gather_ok_run(2)]
  from del have 1: "fst (main (Some font_url) (test_env 200 (Font noto_vf)) empty_world) = Inr ()"
    by (rule conjunct1)
  from del [THEN conjunct2, THEN conjunct1]
  have 3: "files (snd (main (Some font_url) (test_env 200 (Font noto_vf)) empty_world))
         [''temp'', ''input'', ''f''] = None"
    by (simp add: main_temp_dir_def)
  have 4: "fst (gather (main_futures (Some font_url) (test_env 200 (Font (noto_vf\<lparr>VORG := None\<rparr>))))
           empty_world) = Inl (KeyError ''VORG'')"
    using main_fail_run(1,2) by simp
  from ko [THEN conjunct2, rule_format, OF 4, THEN conjunct2, THEN conjunct1]
  have 5: "RMTREE main_temp_dir
        \<notin> set (trace (snd (main (Some font_url) (test_env 200 (Font (noto_vf\<lparr>VORG := None\<rparr>)))
                    empty_world)))"
    by (simp add: empty_world_simps)
  from 0 1 2 3 4 5 show ?thesis by blast
qed

text \<open>
  The claim as the specification states it fails on a run whose one chain raises in the
  transform: the driver returns the error, nothing is deleted, and the downloaded file is
  still under the staging root.
\<close>

theorem staging_teardown_counterexample:
  "fst (main (Some font_url) (test_env 200 (Font (noto_vf\<lparr>VORG := None\<rparr>))) empty_world)
     = Inl (KeyError ''VORG'')
   \<and> trace (snd (main (Some font_url) (test_env 200 (Font (noto_vf\<lparr>VORG := None\<rparr>))) empty_world)) =
     [FETCH [''temp'', ''input'', ''f''], ADD_CHWS [''temp'', ''input'', ''f''],
      SUBSET [''temp'', ''intermediate_chws'', ''f''], VFINST [''temp'', ''intermediate_chws'', ''f'']]
   \<and> files (snd (main (Some font_url) (test_env 200 (Font (noto_vf\<lparr>VORG := None\<rparr>))) empty_world))
      [''temp'', ''input'', ''f''] = Some (Font (noto_vf\<lparr>VORG := None\<rparr>))"
  by (simp add: main_fail_run(2,3,4))


subsection \<open>Repacking a collection\<close>

lemma adds_refl [simp]: "adds P w w"
  by (simp add: adds_def)

lemma adds_emit: "P e \<Longrightarrow> adds P w0 w \<Longrightarrow> adds P w0 (emit e w)"
  by (auto simp add: adds_def)

lemma adds_write_file [simp]: "adds P w0 (write_file p c w) = adds P w0 w"
  by (simp add: adds_def)

lemma adds_ensure_parent_dir [simp]: "adds P w0 (ensure_parent_dir p w) = adds P w0 w"
  by (simp add: adds_def)

lemma adds_unpack_ttc_worker:
  "adds member_event w0 w \<Longrightarrow> adds member_event w0 (snd (unpack_ttc_worker c i out w))"
  by (auto simp add: unpack_ttc_worker_def Let_def adds_emit split: sum.splits)

lemma adds_process_ttf_worker:
  "adds member_event w0 w \<Longrightarrow> adds member_event w0 (snd (process_ttf_worker pt i out t w))"
  by (auto simp add: process_ttf_worker_def add_chws_def save_ttf_def Let_def adds_emit
      split: sum.splits prod.splits)

lemma adds_member_step:
  "adds member_event w0 w \<Longrightarrow> adds member_event w0 (snd (member_step pt c t i s w))"
  using adds_unpack_ttc_worker [of w0 w c i "input_ttf_path t c i"]
    adds_process_ttf_worker [of w0 w pt "input_ttf_path t c i" "processed_ttf_path t c i" t]
  by (cases s) (auto split: prod.splits sum.splits)

lemma adds_run_schedule:
  assumes "\<And>k s w. adds P w0 w \<Longrightarrow> adds P w0 (snd (step k s w))"
  shows "adds P w0 w \<Longrightarrow> adds P w0 (snd (run_schedule step ks st w))"
proof (induction ks arbitrary: st w)
  case Nil
  then show ?case by simp
next
  case (Cons k ks)
  show ?case
  proof (cases "k < length st \<and> st ! k \<noteq> FINISHED")
    case False
    then show ?thesis using Cons by auto
  next
    case True
    obtain r w' where s: "step k (st ! k) w = (r, w')" by (cases "step k (st ! k) w")
    have q: "adds P w0 w'" using assms [OF Cons.prems, of k "st ! k"] s by simp
    show ?thesis
      using True s q Cons.IH by (cases r) auto
  qed
qed

lemma adds_not_in:
  assumes "adds P w w'" and "\<not> P e"
  shows "e \<notin> set (drop (length (trace w)) (trace w'))"
  using assms by (auto simp add: adds_def list_all_iff)

lemma adds_drop_mono:
  assumes "adds P w0 w" and "adds P w w'" and "e \<in> set (drop (length (trace w0)) (trace w))"
  shows "e \<in> set (drop (length (trace w0)) (trace w'))"
  using assms by (auto simp add: adds_def)

lemma adds_trans: "adds P a b \<Longrightarrow> adds P b c \<Longrightarrow> adds P a c"
  by (auto simp add: adds_def)

text \<open>The staged paths of the members are pairwise different, and none is the collection file.\<close>

lemma input_ttf_path_eq: "input_ttf_path t c i = t @ [''input_ttf'', member_name c i]"
  by (simp add: input_ttf_path_def pjoin_def member_name_not_empty)

lemma processed_ttf_path_eq: "processed_ttf_path t c i = t @ [''processed_ttf'', member_name c i]"
  by (simp add: processed_ttf_path_def pjoin_def member_name_not_empty)

lemma chws_input_path_eq:
  "chws_path t (input_ttf_path t c i) = t @ [''intermediate_chws'', member_name c i]"
  by (simp add: chws_path_def input_ttf_path_eq pjoin_def path_name_def member_name_not_empty)

lemma chws_staged_eq:
  "chws_path t (t @ [d, member_name c i]) = t @ [''intermediate_chws'', member_name c i]"
  by (simp add: chws_path_def pjoin_def path_name_def member_name_not_empty)

lemma staged_not_container: "t @ [d, member_name c i] \<noteq> c"
  using member_path_not_container [of "t @ [d]" c i] by (simp add: pjoin_member)

lemma member_name_eq_iff [simp]: "(member_name c i = member_name c j) = (i = j)"
  by (auto dest: member_name_inj)

lemma staged_eq_iff:
  "(t @ [d, member_name c i] = t @ [d', member_name c j]) = (d = d' \<and> i = j)"
  by (auto dest: member_name_inj)

text \<open>What a transform worker that returns normally has done.\<close>

lemma worker_result:
  assumes "files w i = Some (Font f)"
    and "process_ttf_worker patch i out t w = (Inr u, w')"
  shows "\<exists>g f'. transform_font patch f = Inr f'
           \<and> files w' = (files w)(chws_path t i \<mapsto> Font g, out \<mapsto> Font f')
           \<and> adds member_event w w'
           \<and> TTF out \<in> set (drop (length (trace w)) (trace w'))"
proof (cases "patch f")
  case (Inl e)
  with assms show ?thesis
    by (simp add: process_ttf_worker_def add_chws_def TTFont_def Let_def)
next
  case (Inr g)
  let ?c = "chws_path t i"
  let ?w3 = "emit (SUBSET ?c) (write_file ?c (Font g) (emit (ADD_CHWS i) (ensure_parent_dir ?c w)))"
  let ?font1 = "delete_from_cmap g EXCLUDED_CODEPOINTS"
  note wl = worker_loaded [where patch = patch and f = f and g = g and out_ttf = out
      and temp_dir = t, OF assms(1) Inr]
  show ?thesis
  proof (cases "fvar g = None")
    case True
    with wl have "process_ttf_worker patch i out t w = save_ttf ?font1 out ?w3"
      by (simp add: Let_def)
    with assms(2) have w': "w' = snd (save_ttf ?font1 out ?w3)"
      by (metis snd_conv)
    have tf: "transform_font patch f = Inr ?font1"
      using Inr True by (simp add: transform_font_def)
    show ?thesis
      unfolding w'
      by (intro exI [of _ g] exI [of _ ?font1])
         (simp add: tf save_ttf_def adds_def)
  next
    case False
    then obtain font2 where d: "drop_vorg_and_instantiate ?font1 = Inr font2"
      using wl assms(2) by (cases "drop_vorg_and_instantiate ?font1") (simp_all add: Let_def)
    with wl False have "process_ttf_worker patch i out t w
        = save_ttf font2 out (emit (VFINST ?c) ?w3)"
      by (simp add: Let_def)
    with assms(2) have w': "w' = snd (save_ttf font2 out (emit (VFINST ?c) ?w3))"
      by (metis snd_conv)
    have tf: "transform_font patch f = Inr font2"
      using Inr False d by (simp add: transform_font_def)
    show ?thesis
      unfolding w'
      by (intro exI [of _ g] exI [of _ font2])
         (simp add: tf save_ttf_def adds_def)
  qed
qed

text \<open>After the wait every member has finished.\<close>

lemma rank_le_2: "rank s \<le> 2"
  by (cases s) simp_all

lemma rank_2: "(rank s = 2) = (s = FINISHED)"
  by (cases s) simp_all

lemma member_step_rank:
  assumes "s \<noteq> FINISHED" and "member_step pt c t i s w = (Inr s', w')"
  shows "rank s' = Suc (rank s)"
  using assms by (cases s) (auto split: prod.splits sum.splits)

lemma run_schedule_progress:
  assumes step: "\<And>k s w s' w'. s \<noteq> FINISHED \<Longrightarrow> step k s w = (Inr s', w') \<Longrightarrow> rank s' = Suc (rank s)"
  shows "run_schedule step ks st w = (Inr st', w') \<Longrightarrow>
         length st' = length st
         \<and> (\<forall>i<length st. min 2 (rank (st ! i) + count_list ks i) \<le> rank (st' ! i))"
proof (induction ks arbitrary: st w)
  case Nil
  then show ?case by auto
next
  case (Cons k ks)
  show ?case
  proof (cases "k < length st \<and> st ! k \<noteq> FINISHED")
    case False
    with Cons.prems have r: "run_schedule step ks st w = (Inr st', w')"
      by simp
    note ih = Cons.IH [OF r]
    show ?thesis
    proof (intro conjI allI impI)
      show "length st' = length st" using ih by simp
    next
      fix i assume i: "i < length st"
      show "min 2 (rank (st ! i) + count_list (k # ks) i) \<le> rank (st' ! i)"
      proof (cases "i = k")
        case True
        with False i have "st ! i = FINISHED" by simp
        then have "rank (st ! i) = 2" by simp
        with ih i show ?thesis by auto
      next
        case False
        with ih i show ?thesis by auto
      qed
    qed
  next
    case True
    obtain r w1 where s: "step k (st ! k) w = (r, w1)" by (cases "step k (st ! k) w")
    from Cons.prems True s obtain s' where r: "r = Inr s'"
      by (cases r) auto
    with Cons.prems True s have run: "run_schedule step ks (st[k := s']) w1 = (Inr st', w')"
      by simp
    note ih = Cons.IH [OF run]
    have rk: "rank s' = Suc (rank (st ! k))"
      using step [of "st ! k" k w s' w1] True s r by simp
    show ?thesis
    proof (intro conjI allI impI)
      show "length st' = length st" using ih by simp
    next
      fix i assume i: "i < length st"
      then have "min 2 (rank (st[k := s'] ! i) + count_list ks i) \<le> rank (st' ! i)"
        using ih by simp
      then show "min 2 (rank (st ! i) + count_list (k # ks) i) \<le> rank (st' ! i)"
        using rk i by (cases "i = k") auto
    qed
  qed
qed

lemma count_completion: "i < n \<Longrightarrow> count_list (completion n) i = 2"
proof (induction n)
  case 0
  then show ?case by simp
next
  case (Suc n)
  have c: "completion (Suc n) = completion n @ [n, n]"
    by (simp add: completion_def)
  have z: "count_list (completion n) n = 0"
    by (rule count_notin) (auto simp add: completion_def)
  show ?case
    using Suc z by (cases "i = n") (simp_all add: c)
qed

lemma run_schedule_all_finished:
  assumes "run_schedule (member_step pt c t) (sched @ completion n) st w = (Inr st', w')"
    and "length st = n"
  shows "length st' = n \<and> (\<forall>i<n. st' ! i = FINISHED)"
proof -
  note p = run_schedule_progress [of "member_step pt c t", OF member_step_rank, OF _ _ assms(1)]
  show ?thesis
  proof (intro conjI allI impI)
    show "length st' = n" using p assms(2) by simp
  next
    fix i assume i: "i < n"
    then have "min 2 (rank (st ! i) + count_list (sched @ completion n) i) \<le> rank (st' ! i)"
      using p assms(2) by simp
    moreover have "count_list (sched @ completion n) i \<ge> 2"
      using count_completion [OF i] by simp
    ultimately have "2 \<le> rank (st' ! i)" by simp
    with rank_le_2 [of "st' ! i"] have "rank (st' ! i) = 2" by simp
    then show "st' ! i = FINISHED" by (simp add: rank_2)
  qed
qed

text \<open>Each step of a member keeps the invariant, whichever member takes it.\<close>

lemma drop_trans_in:
  assumes "adds P w0 w" and "e \<in> set (drop (length (trace w)) (trace w'))" and "adds P w w'"
  shows "e \<in> set (drop (length (trace w0)) (trace w'))"
  using assms by (auto simp add: adds_def)

lemma member_step_inv:
  assumes inv: "members_inv patch c t ms w0 st w"
    and k: "k < length st" and nf: "st ! k \<noteq> FINISHED"
    and step: "member_step patch c t k (st ! k) w = (Inr s, w')"
  shows "members_inv patch c t ms w0 (st[k := s]) w'"
proof -
  from inv have len: "length st = length ms"
    and coll: "files w c = Some (Collection ms)"
    and ad: "adds member_event w0 w"
    and tr: "\<And>i. i < length ms \<Longrightarrow> st ! i = TO_TRANSFORM \<Longrightarrow>
               files w (input_ttf_path t c i) = Some (Font (ms ! i))"
    and fin: "\<And>i. i < length ms \<Longrightarrow> st ! i = FINISHED \<Longrightarrow>
               (\<exists>f. transform_font patch (ms ! i) = Inr f
                   \<and> files w (processed_ttf_path t c i) = Some (Font f))
               \<and> TTF (processed_ttf_path t c i) \<in> set (drop (length (trace w0)) (trace w))"
    by (simp_all add: members_inv_def)
  have ad1: "adds member_event w w'"
    using adds_member_step [of w w patch c t k "st ! k"] step by simp
  have ad': "adds member_event w0 w'"
    using ad ad1 by (rule adds_trans)
  have km: "k < length ms" using k len by simp
  show ?thesis
  proof (cases "st ! k")
    case FINISHED
    with nf show ?thesis by simp
  next
    case TO_UNPACK
    have u: "unpack_ttc_worker c k (input_ttf_path t c k) w =
       (Inr (), write_file (input_ttf_path t c k) (Font (ms ! k))
          (ensure_parent_dir (input_ttf_path t c k) (emit (UNTTC_TO c (input_ttf_path t c k)) w)))"
      using coll km by (rule unpack_ttc_worker_ok)
    from step TO_UNPACK u have s: "s = TO_TRANSFORM"
      and w': "w' = write_file (input_ttf_path t c k) (Font (ms ! k))
          (ensure_parent_dir (input_ttf_path t c k) (emit (UNTTC_TO c (input_ttf_path t c k)) w))"
      by simp_all
    have f': "files w' = (files w)(input_ttf_path t c k \<mapsto> Font (ms ! k))"
      unfolding w' by simp
    show ?thesis
      unfolding members_inv_def
    proof (intro conjI allI impI)
      show "length (st[k := s]) = length ms" using len by simp
      show "files w' c = Some (Collection ms)"
        using coll staged_not_container [of t "''input_ttf''" c k]
        by (simp add: f' input_ttf_path_eq)
      show "adds member_event w0 w'" by (rule ad')
    next
      fix i assume i: "i < length ms" and a: "st[k := s] ! i = TO_TRANSFORM"
      show "files w' (input_ttf_path t c i) = Some (Font (ms ! i))"
      proof (cases "i = k")
        case True
        then show ?thesis by (simp add: f')
      next
        case False
        with a have "st ! i = TO_TRANSFORM" by simp
        with tr [OF i] False show ?thesis
          by (simp add: f' input_ttf_path_eq staged_eq_iff)
      qed
    next
      fix i assume i: "i < length ms" and a: "st[k := s] ! i = FINISHED"
      then have ik: "i \<noteq> k" using s k by auto
      with a have b: "st ! i = FINISHED" by simp
      from fin [OF i b] show "\<exists>f. transform_font patch (ms ! i) = Inr f
                   \<and> files w' (processed_ttf_path t c i) = Some (Font f)"
        by (simp add: f' input_ttf_path_eq processed_ttf_path_eq staged_eq_iff)
    next
      fix i assume i: "i < length ms" and a: "st[k := s] ! i = FINISHED"
      then have ik: "i \<noteq> k" using s k by auto
      with a have b: "st ! i = FINISHED" by simp
      from fin [OF i b] ad ad1
      show "TTF (processed_ttf_path t c i) \<in> set (drop (length (trace w0)) (trace w'))"
        by (auto intro: adds_drop_mono)
    qed
  next
    case TO_TRANSFORM
    have inp: "files w (input_ttf_path t c k) = Some (Font (ms ! k))"
      using tr [OF km TO_TRANSFORM] .
    from step TO_TRANSFORM obtain u where
      p: "process_ttf_worker patch (input_ttf_path t c k) (processed_ttf_path t c k) t w = (Inr u, w')"
      and s: "s = FINISHED"
      by (auto split: prod.splits sum.splits)
    from worker_result [OF inp p] obtain g f' where
      tf: "transform_font patch (ms ! k) = Inr f'"
      and f': "files w' = (files w)(chws_path t (input_ttf_path t c k) \<mapsto> Font g,
                                    processed_ttf_path t c k \<mapsto> Font f')"
      and ttf: "TTF (processed_ttf_path t c k) \<in> set (drop (length (trace w)) (trace w'))"
      by blast
    show ?thesis
      unfolding members_inv_def
    proof (intro conjI allI impI)
      show "length (st[k := s]) = length ms" using len by simp
      show "files w' c = Some (Collection ms)"
        using coll staged_not_container [of t "''intermediate_chws''" c k]
          staged_not_container [of t "''processed_ttf''" c k]
        by (simp add: f' chws_staged_eq input_ttf_path_eq processed_ttf_path_eq)
      show "adds member_event w0 w'" by (rule ad')
    next
      fix i assume i: "i < length ms" and a: "st[k := s] ! i = TO_TRANSFORM"
      then have ik: "i \<noteq> k" using s k by auto
      with a have "st ! i = TO_TRANSFORM" by simp
      with tr [OF i] show "files w' (input_ttf_path t c i) = Some (Font (ms ! i))"
        by (simp add: f' chws_staged_eq input_ttf_path_eq processed_ttf_path_eq staged_eq_iff)
    next
      fix i assume i: "i < length ms" and a: "st[k := s] ! i = FINISHED"
      show "\<exists>f. transform_font patch (ms ! i) = Inr f
                   \<and> files w' (processed_ttf_path t c i) = Some (Font f)"
      proof (cases "i = k")
        case True
        then show ?thesis using tf by (simp add: f')
      next
        case False
        with a have b: "st ! i = FINISHED" by simp
        from fin [OF i b] False show ?thesis
          by (simp add: f' chws_staged_eq input_ttf_path_eq processed_ttf_path_eq staged_eq_iff)
      qed
    next
      fix i assume i: "i < length ms" and a: "st[k := s] ! i = FINISHED"
      show "TTF (processed_ttf_path t c i) \<in> set (drop (length (trace w0)) (trace w'))"
      proof (cases "i = k")
        case True
        then show ?thesis using drop_trans_in [OF ad ttf ad1] by simp
      next
        case False
        with a have b: "st ! i = FINISHED" by simp
        from fin [OF i b] ad ad1 show ?thesis
          by (auto intro: adds_drop_mono)
      qed
    qed
  qed
qed

lemma run_schedule_inv:
  assumes "members_inv patch c t ms w0 st w"
    and "run_schedule (member_step patch c t) ks st w = (Inr st', w')"
  shows "members_inv patch c t ms w0 st' w'"
  using assms
proof (induction ks arbitrary: st w)
  case Nil
  then show ?case by simp
next
  case (Cons k ks)
  show ?case
  proof (cases "k < length st \<and> st ! k \<noteq> FINISHED")
    case False
    with Cons show ?thesis by auto
  next
    case True
    obtain r w1 where s: "member_step patch c t k (st ! k) w = (r, w1)"
      by (cases "member_step patch c t k (st ! k) w")
    from Cons.prems(2) True s obtain s' where r: "r = Inr s'"
      by (cases r) auto
    with Cons.prems(2) True s
    have run: "run_schedule (member_step patch c t) ks (st[k := s']) w1 = (Inr st', w')"
      by simp
    have "members_inv patch c t ms w0 (st[k := s']) w1"
      using Cons.prems(1) True s r by (intro member_step_inv) simp_all
    then show ?thesis
      using run by (rule Cons.IH)
  qed
qed

lemma members_inv_init:
  assumes "files w c = Some (Collection ms)"
  shows "members_inv patch c t ms w (replicate (length ms) TO_UNPACK) w"
  using assms by (simp add: members_inv_def)

lemma only_last_occurrence:
  assumes "x \<notin> set evs" and "evs @ [x] = pre @ x # post"
  shows "pre = evs \<and> post = []"
proof (cases post rule: rev_cases)
  case Nil
  with assms(2) show ?thesis by simp
next
  case (snoc ps y)
  with assms(2) have "evs @ [x] = (pre @ x # ps) @ [y]" by simp
  then have "evs = pre @ x # ps" by (simp only: append1_eq_conv)
  with assms(1) show ?thesis by simp
qed

lemma process_ttc_cases:
  assumes "files w in_ttc = Some (Collection ms)"
  shows "(\<exists>e w1. process_ttc sched patch in_ttc out_ttc temp_dir w = (Inl e, w1)
            \<and> adds member_event w w1)
       \<or> (\<exists>w1 fs. process_ttc sched patch in_ttc out_ttc temp_dir w
                 = pack_ttc (map (processed_ttf_path temp_dir in_ttc) [0..<length ms]) out_ttc w1
            \<and> pack_ttc (map (processed_ttf_path temp_dir in_ttc) [0..<length ms]) out_ttc w1
                 = (Inr (), write_file out_ttc (Collection fs)
                              (ensure_parent_dir out_ttc (emit (TTC out_ttc) w1)))
            \<and> adds member_event w w1
            \<and> length fs = length ms
            \<and> (\<forall>i<length ms. transform_font patch (ms ! i) = Inr (fs ! i)
                   \<and> files w1 (processed_ttf_path temp_dir in_ttc i) = Some (Font (fs ! i))
                   \<and> TTF (processed_ttf_path temp_dir in_ttc i)
                        \<in> set (drop (length (trace w)) (trace w1))))"
proof -
  let ?n = "length ms"
  let ?r = "run_schedule (member_step patch in_ttc temp_dir) (sched @ completion ?n)
              (replicate ?n TO_UNPACK) w"
  let ?paths = "map (processed_ttf_path temp_dir in_ttc) [0..<?n]"
  have c: "TTCollection w in_ttc = Inr ms"
    using assms by (simp add: TTCollection_def)
  obtain r w1 where run: "?r = (r, w1)" by (cases ?r)
  have ad: "adds member_event w w1"
    using adds_run_schedule [of member_event w "member_step patch in_ttc temp_dir" w
        "sched @ completion ?n" "replicate ?n TO_UNPACK", OF adds_member_step] run
    by simp
  show ?thesis
  proof (cases r)
    case (Inl e)
    then have "process_ttc sched patch in_ttc out_ttc temp_dir w = (Inl e, w1)"
      using c run by (simp add: process_ttc_def Let_def)
    with ad show ?thesis by blast
  next
    case (Inr st)
    with run have run': "?r = (Inr st, w1)" by simp
    have inv: "members_inv patch in_ttc temp_dir ms w st w1"
      using members_inv_init [OF assms] run' by (rule run_schedule_inv)
    have fin: "\<forall>i<?n. st ! i = FINISHED"
      using run_schedule_all_finished [OF run'] by simp
    have ex: "\<forall>i<?n. \<exists>f. transform_font patch (ms ! i) = Inr f
                   \<and> files w1 (processed_ttf_path temp_dir in_ttc i) = Some (Font f)"
      and ttf: "\<forall>i<?n. TTF (processed_ttf_path temp_dir in_ttc i)
                        \<in> set (drop (length (trace w)) (trace w1))"
      using inv fin by (simp_all add: members_inv_def)
    from ex obtain F where F: "\<forall>i<?n. transform_font patch (ms ! i) = Inr (F i)
                   \<and> files w1 (processed_ttf_path temp_dir in_ttc i) = Some (Font (F i))"
      by metis
    let ?fs = "map F [0..<?n]"
    have "list_all2 (\<lambda>p f. files (emit (TTC out_ttc) w1) p = Some (Font f)) ?paths ?fs"
      using F by (simp add: list_all2_conv_all_nth)
    then have l: "load_fonts (emit (TTC out_ttc) w1) ?paths = Inr ?fs"
      by (rule load_fonts_all)
    have p: "pack_ttc ?paths out_ttc w1 =
       (Inr (), write_file out_ttc (Collection ?fs)
                  (ensure_parent_dir out_ttc (emit (TTC out_ttc) w1)))"
      by (simp add: pack_ttc_def Let_def l)
    have q: "process_ttc sched patch in_ttc out_ttc temp_dir w = pack_ttc ?paths out_ttc w1"
      using c run' by (simp add: process_ttc_def Let_def)
    have "\<exists>w1 fs. process_ttc sched patch in_ttc out_ttc temp_dir w = pack_ttc ?paths out_ttc w1
            \<and> pack_ttc ?paths out_ttc w1
                 = (Inr (), write_file out_ttc (Collection fs)
                              (ensure_parent_dir out_ttc (emit (TTC out_ttc) w1)))
            \<and> adds member_event w w1
            \<and> length fs = ?n
            \<and> (\<forall>i<?n. transform_font patch (ms ! i) = Inr (fs ! i)
                   \<and> files w1 (processed_ttf_path temp_dir in_ttc i) = Some (Font (fs ! i))
                   \<and> TTF (processed_ttf_path temp_dir in_ttc i)
                        \<in> set (drop (length (trace w)) (trace w1)))"
      using q p ad F ttf
      by (intro exI [of _ w1] exI [of _ ?fs]) simp
    then show ?thesis by (rule disjI2)
  qed
qed

text \<open>
  C9. For a collection of N members and every schedule of the members' steps: a status
  line of the repack, if one is printed, is the last event of the call and comes after
  the save of every one of the N members; and when the call returns normally, the
  repack was handed the paths of members 0 to N - 1 in that order, each holding the
  transform of the member with its index, and the collection written has the
  transformed members in the original order.
\<close>

theorem repack_after_all_members_in_order:
  assumes "files w in_ttc = Some (Collection ms)"
  shows "(\<forall>pre post.
            drop (length (trace w)) (trace (snd (process_ttc sched patch in_ttc out_ttc temp_dir w)))
              = pre @ TTC out_ttc # post \<longrightarrow>
            post = [] \<and> (\<forall>i<length ms. TTF (processed_ttf_path temp_dir in_ttc i) \<in> set pre))
       \<and> (fst (process_ttc sched patch in_ttc out_ttc temp_dir w) = Inr () \<longrightarrow>
            (\<exists>w1 fs. process_ttc sched patch in_ttc out_ttc temp_dir w
                 = pack_ttc (map (processed_ttf_path temp_dir in_ttc) [0..<length ms]) out_ttc w1
               \<and> length fs = length ms
               \<and> (\<forall>i<length ms. transform_font patch (ms ! i) = Inr (fs ! i)
                      \<and> files w1 (processed_ttf_path temp_dir in_ttc i) = Some (Font (fs ! i)))
               \<and> files (snd (process_ttc sched patch in_ttc out_ttc temp_dir w)) out_ttc
                    = Some (Collection fs)))"
proof -
  let ?r = "process_ttc sched patch in_ttc out_ttc temp_dir w"
  let ?paths = "map (processed_ttf_path temp_dir in_ttc) [0..<length ms]"
  from process_ttc_cases [OF assms, of sched patch out_ttc temp_dir]
  show ?thesis
  proof (elim disjE exE conjE)
    fix e w1
    assume r: "?r = (Inl e, w1)" and ad: "adds member_event w w1"
    have "TTC out_ttc \<notin> set (drop (length (trace w)) (trace w1))"
      using ad by (rule adds_not_in) simp
    then show ?thesis
      unfolding r by auto
  next
    fix w1 fs
    assume r: "?r = pack_ttc ?paths out_ttc w1"
      and p: "pack_ttc ?paths out_ttc w1
                 = (Inr (), write_file out_ttc (Collection fs)
                              (ensure_parent_dir out_ttc (emit (TTC out_ttc) w1)))"
      and ad: "adds member_event w w1"
      and len: "length fs = length ms"
      and m: "\<forall>i<length ms. transform_font patch (ms ! i) = Inr (fs ! i)
                   \<and> files w1 (processed_ttf_path temp_dir in_ttc i) = Some (Font (fs ! i))
                   \<and> TTF (processed_ttf_path temp_dir in_ttc i)
                        \<in> set (drop (length (trace w)) (trace w1))"
    from ad obtain evs where t: "trace w1 = trace w @ evs" and me: "list_all member_event evs"
      by (auto simp add: adds_def)
    have nt: "TTC out_ttc \<notin> set evs"
      using me by (auto simp add: list_all_iff)
    have new: "drop (length (trace w)) (trace (snd ?r)) = evs @ [TTC out_ttc]"
      unfolding r p by (simp add: t)
    have 1: "\<forall>pre post. drop (length (trace w)) (trace (snd ?r)) = pre @ TTC out_ttc # post \<longrightarrow>
            post = [] \<and> (\<forall>i<length ms. TTF (processed_ttf_path temp_dir in_ttc i) \<in> set pre)"
    proof (intro allI impI)
      fix pre post
      assume "drop (length (trace w)) (trace (snd ?r)) = pre @ TTC out_ttc # post"
      with new have "evs @ [TTC out_ttc] = pre @ TTC out_ttc # post" by simp
      from only_last_occurrence [OF nt this] have "pre = evs" and "post = []" by simp_all
      then show "post = [] \<and> (\<forall>i<length ms. TTF (processed_ttf_path temp_dir in_ttc i) \<in> set pre)"
        using m t by simp
    qed
    have 2: "\<exists>w1 fs. ?r = pack_ttc ?paths out_ttc w1
               \<and> length fs = length ms
               \<and> (\<forall>i<length ms. transform_font patch (ms ! i) = Inr (fs ! i)
                      \<and> files w1 (processed_ttf_path temp_dir in_ttc i) = Some (Font (fs ! i)))
               \<and> files (snd ?r) out_ttc = Some (Collection fs)"
      using r len m by (intro exI [of _ w1] exI [of _ fs]) (simp add: p)
    from 1 2 show ?thesis by blast
  qed
qed

lemma names: "member_name [''c''] 0 = ''c#0.ttf''" "member_name [''c''] (Suc 0) = ''c#1.ttf''"
  by (simp_all add: member_name_def path_name_def str_nat_digits)

lemma paths:
  "input_ttf_path [''t''] [''c''] 0 = [''t'', ''input_ttf'', ''c#0.ttf'']"
  "input_ttf_path [''t''] [''c''] (Suc 0) = [''t'', ''input_ttf'', ''c#1.ttf'']"
  "processed_ttf_path [''t''] [''c''] 0 = [''t'', ''processed_ttf'', ''c#0.ttf'']"
  "processed_ttf_path [''t''] [''c''] (Suc 0) = [''t'', ''processed_ttf'', ''c#1.ttf'']"
  "chws_path [''t''] [''t'', ''input_ttf'', ''c#0.ttf''] = [''t'', ''intermediate_chws'', ''c#0.ttf'']"
  "chws_path [''t''] [''t'', ''input_ttf'', ''c#1.ttf''] = [''t'', ''intermediate_chws'', ''c#1.ttf'']"
  by (simp_all add: input_ttf_path_eq processed_ttf_path_eq names chws_path_def pjoin_def path_name_def)

lemma two_fonts_run:
  "fst (process_ttc [1, 0, 1] Inr [''c''] [''o''] [''t''] two_fonts) = Inr ()"
  "trace (snd (process_ttc [1, 0, 1] Inr [''c''] [''o''] [''t''] two_fonts)) =
     [UNTTC_TO [''c''] [''t'', ''input_ttf'', ''c#1.ttf''],
      UNTTC_TO [''c''] [''t'', ''input_ttf'', ''c#0.ttf''],
      ADD_CHWS [''t'', ''input_ttf'', ''c#1.ttf''],
      SUBSET [''t'', ''intermediate_chws'', ''c#1.ttf''],
      VFINST [''t'', ''intermediate_chws'', ''c#1.ttf''],
      TTF [''t'', ''processed_ttf'', ''c#1.ttf''],
      ADD_CHWS [''t'', ''input_ttf'', ''c#0.ttf''],
      SUBSET [''t'', ''intermediate_chws'', ''c#0.ttf''],
      VFINST [''t'', ''intermediate_chws'', ''c#0.ttf''],
      TTF [''t'', ''processed_ttf'', ''c#0.ttf''],
      TTC [''o'']]"
  by (simp_all add: process_ttc_def TTCollection_def two_fonts_def files_one_file completion_def
      Let_def paths unpack_ttc_worker_ok [where ms = "[noto_vf, noto_vf]"]
      worker_on_noto_vf save_ttf_def pack_ttc_def TTFont_def one_file_def)


theorem repack_after_all_members_in_order_witness:
  "files two_fonts [''c''] = Some (Collection [noto_vf, noto_vf])
   \<and> fst (process_ttc [1, 0, 1] Inr [''c''] [''o''] [''t''] two_fonts) = Inr ()
   \<and> (\<exists>fs. length fs = 2
          \<and> transform_font Inr noto_vf = Inr (fs ! 0)
          \<and> transform_font Inr noto_vf = Inr (fs ! 1)
          \<and> files (snd (process_ttc [1, 0, 1] Inr [''c''] [''o''] [''t''] two_fonts)) [''o'']
               = Some (Collection fs))"
proof -
  have h: "files two_fonts [''c''] = Some (Collection [noto_vf, noto_vf])"
    by (simp add: two_fonts_def files_one_file)
  have ok: "fst (process_ttc [1, 0, 1] Inr [''c''] [''o''] [''t''] two_fonts) = Inr ()"
    by (rule two_fonts_run)
  from repack_after_all_members_in_order
         [OF h, of "[1, 0, 1]" Inr "[''o'']" "[''t'']", THEN conjunct2, rule_format, OF ok]
  obtain w1 :: world and fs where l: "length fs = length [noto_vf, noto_vf]"
    and m: "\<forall>i<length [noto_vf, noto_vf].
              transform_font Inr ([noto_vf, noto_vf] ! i) = Inr (fs ! i)
              \<and> files w1 (processed_ttf_path [''t''] [''c''] i) = Some (Font (fs ! i))"
    and f: "files (snd (process_ttc [1, 0, 1] Inr [''c''] [''o''] [''t''] two_fonts)) [''o'']
               = Some (Collection fs)"
    by (elim exE conjE)
  from m have "transform_font Inr noto_vf = Inr (fs ! 0)"
    and "transform_font Inr noto_vf = Inr (fs ! 1)"
    by auto
  with h ok l f show ?thesis by auto
qed

end
